theory Spec2Isabelle
  imports Main "HOL-Library.Word" "HOL-Library.Sublist"
begin

section \<open>StreamingSession OpenXR sample: data channel and host loop\<close>

text \<open>
  A shallow embedding of \<^verbatim>\<open>MessageChannel.cpp\<close> and of the host parts of
  \<^verbatim>\<open>main.cpp\<close>. The globals of the two files are the fields of a record; every
  function takes the record and returns the updated one. The XR runtime is external: what
  it answers to a call is an argument of the function making the call, and every call that
  reaches it is appended to the field \<open>trace\<close>, together with the stores to the three
  atomic flags, the thread operations and the sleeps, in program order.
  \<^verbatim>\<open>OutputDebugStringA\<close> and \<^verbatim>\<open>printf\<close> logging is left out.
\<close>

subsection \<open>Types of MessageChannel.h\<close>

text \<open>\<^verbatim>\<open>XR_DEFINE_HANDLE\<close> makes a pointer-sized handle; \<^verbatim>\<open>XR_NULL_HANDLE\<close> is 0.\<close>

type_synonym XrOpaqueDataChannelNV = "64 word"

definition XR_NULL_HANDLE :: "64 word" where
  "XR_NULL_HANDLE = 0"

type_synonym XrResult = int

definition XR_SUCCESS :: XrResult where
  "XR_SUCCESS = 0"

text \<open>
  The status enum. The runtime writes the field as an integer, so a value that is none of
  the four enumerators is possible; it is kept as \<open>XR_OPAQUE_DATA_CHANNEL_STATUS_OTHER\<close>.
\<close>

datatype XrOpaqueDataChannelStatusNV =
    XR_OPAQUE_DATA_CHANNEL_STATUS_CONNECTING_NV
  | XR_OPAQUE_DATA_CHANNEL_STATUS_CONNECTED_NV
  | XR_OPAQUE_DATA_CHANNEL_STATUS_SHUTTING_NV
  | XR_OPAQUE_DATA_CHANNEL_STATUS_DISCONNECTED_NV
  | XR_OPAQUE_DATA_CHANNEL_STATUS_OTHER int

text \<open>\<^verbatim>\<open>XR_INFINITE_DURATION\<close> of openxr.h, an \<^verbatim>\<open>int64_t\<close>.\<close>

definition XR_INFINITE_DURATION :: int where
  "XR_INFINITE_DURATION = 9223372036854775807"

subsection \<open>Observable actions\<close>

datatype event =
    Store_connecting bool
  | Store_running bool
  | Store_connected bool
  | Store_channel "64 word"
  | Call_GetState "64 word"
  | Call_Send "64 word" "32 word" "8 word list"
  | Call_Receive "64 word" "32 word"
  | Call_Shutdown "64 word"
  | Call_Destroy "64 word"
  | Start_receive_thread
  | Start_connection_thread
  | Join_connection_thread
  | Join_receive_thread
  | Sleep_ms nat
  | WaitFrame
  | BeginFrame
  | LocateViews
  | AcquireSwapchainImage nat
  | WaitSwapchainImage nat int
  | Render_layer nat nat
  | ReleaseSwapchainImage nat
  | EndFrame "nat list"
  | Present_window
  | Shutdown_openxr
  | Shutdown_d3d

subsection \<open>Globals of MessageChannel.cpp\<close>

text \<open>
  A function pointer is modelled by whether it was resolved (is not \<^verbatim>\<open>nullptr\<close>);
  a \<^verbatim>\<open>std::thread\<close> object by its \<^verbatim>\<open>joinable()\<close>. \<open>clock_ms\<close> is the steady
  clock in milliseconds; only \<^verbatim>\<open>sleep_for\<close> advances it, so it is a lower bound of the
  time that has really passed.
\<close>

record channel_state =
  ext_xrGetOpaqueDataChannelStateNV :: bool
  ext_xrShutdownOpaqueDataChannelNV :: bool
  ext_xrDestroyOpaqueDataChannelNV :: bool
  ext_xrSendOpaqueDataChannelNV :: bool
  ext_xrReceiveOpaqueDataChannelNV :: bool
  xr_opaque_channel :: "64 word"
  xr_opaque_running :: bool
  xr_opaque_connected :: bool
  xr_opaque_connecting :: bool
  xr_opaque_thread :: bool
  xr_opaque_connection_thread :: bool
  clock_ms :: nat
  trace :: "event list"

definition emit :: "event \<Rightarrow> 'a channel_state_scheme \<Rightarrow> 'a channel_state_scheme" where
  "emit e s = s\<lparr>trace := trace s @ [e]\<rparr>"

definition sleep_for :: "nat \<Rightarrow> 'a channel_state_scheme \<Rightarrow> 'a channel_state_scheme" where
  "sleep_for ms s = emit (Sleep_ms ms) (s\<lparr>clock_ms := clock_ms s + ms\<rparr>)"

definition store_connecting :: "bool \<Rightarrow> 'a channel_state_scheme \<Rightarrow> 'a channel_state_scheme" where
  "store_connecting b s = emit (Store_connecting b) (s\<lparr>xr_opaque_connecting := b\<rparr>)"

definition store_running :: "bool \<Rightarrow> 'a channel_state_scheme \<Rightarrow> 'a channel_state_scheme" where
  "store_running b s = emit (Store_running b) (s\<lparr>xr_opaque_running := b\<rparr>)"

definition store_connected :: "bool \<Rightarrow> 'a channel_state_scheme \<Rightarrow> 'a channel_state_scheme" where
  "store_connected b s = emit (Store_connected b) (s\<lparr>xr_opaque_connected := b\<rparr>)"

subsection \<open>opaque_channel_send_data\<close>

text \<open>
  \<open>rt\<close> is what the runtime's send entry point returns if it is called; \<open>data\<close> are
  the bytes at the pointer, \<open>sz\<close> the \<^verbatim>\<open>size_t\<close> length, cast to
  \<^verbatim>\<open>uint32_t\<close> for the runtime.
\<close>

definition opaque_channel_send_data ::
  "XrResult \<Rightarrow> 8 word list \<Rightarrow> 64 word \<Rightarrow> 'a channel_state_scheme
     \<Rightarrow> bool \<times> 'a channel_state_scheme" where
  "opaque_channel_send_data rt data sz s =
     (if \<not> ext_xrSendOpaqueDataChannelNV s \<or> xr_opaque_channel s = XR_NULL_HANDLE
      then (False, s)
      else
        let s1 = emit (Call_Send (xr_opaque_channel s) (ucast sz) data) s
        in if rt = XR_SUCCESS then (True, s1) else (False, s1))"

subsection \<open>opaque_channel_shutdown\<close>

text \<open>
  A join is modelled as returning: the event is recorded and the thread object stops being
  joinable.
\<close>

definition join_connection_thread :: "'a channel_state_scheme \<Rightarrow> 'a channel_state_scheme" where
  "join_connection_thread s =
     emit Join_connection_thread (s\<lparr>xr_opaque_connection_thread := False\<rparr>)"

definition join_receive_thread :: "'a channel_state_scheme \<Rightarrow> 'a channel_state_scheme" where
  "join_receive_thread s = emit Join_receive_thread (s\<lparr>xr_opaque_thread := False\<rparr>)"

definition opaque_channel_shutdown :: "'a channel_state_scheme \<Rightarrow> 'a channel_state_scheme" where
  "opaque_channel_shutdown s =
     (let s1 = store_connecting False s;
          s2 = store_running False s1;
          s3 = (if xr_opaque_connection_thread s2 then join_connection_thread s2 else s2);
          s4 = (if xr_opaque_thread s3 then join_receive_thread s3 else s3);
          s5 = (if xr_opaque_channel s4 \<noteq> XR_NULL_HANDLE \<and> ext_xrShutdownOpaqueDataChannelNV s4
                then emit (Call_Shutdown (xr_opaque_channel s4)) s4 else s4);
          s6 = (if xr_opaque_channel s5 \<noteq> XR_NULL_HANDLE \<and> ext_xrDestroyOpaqueDataChannelNV s5
                then emit (Store_channel XR_NULL_HANDLE)
                       ((emit (Call_Destroy (xr_opaque_channel s5)) s5)
                          \<lparr>xr_opaque_channel := XR_NULL_HANDLE\<rparr>)
                else s5)
      in s6)"

subsection \<open>Loops over the runtime's answers\<close>

text \<open>
  One run of a loop body ends in one of four ways. A call through a function pointer that
  was never resolved is \<open>Fault\<close>.
\<close>

datatype 'a flow = Continue 'a | Break 'a | Return 'a | Fault

text \<open>
  A task is run against the finite list of answers the runtime gives to its successive
  polls. \<open>Polling\<close> is the task still inside its loop when the list is used up.
\<close>

datatype 'a outcome = Returned 'a | Polling 'a | Crashed

subsection \<open>opaque_channel_connect_async\<close>

definition testData :: "8 word list" where
  "testData = [0x01, 0x02, 0x03, 0x04, 0x05]"

text \<open>
  The body of the while loop, for the answer \<open>(result, status)\<close> of the status poll;
  \<open>rt\<close> is the runtime's answer to the handshake send. The \<^verbatim>\<open>break\<close> statements
  of the DISCONNECTED and CONNECTING cases leave the switch, not the loop.
\<close>

definition connect_body ::
  "XrResult \<times> XrOpaqueDataChannelStatusNV \<Rightarrow> XrResult \<Rightarrow> 'a channel_state_scheme
     \<Rightarrow> 'a channel_state_scheme flow" where
  "connect_body poll rt s =
     (if \<not> ext_xrGetOpaqueDataChannelStateNV s then Fault
      else
        let s1 = emit (Call_GetState (xr_opaque_channel s)) s
        in if fst poll \<noteq> XR_SUCCESS then Break s1
           else (case snd poll of
               XR_OPAQUE_DATA_CHANNEL_STATUS_CONNECTED_NV \<Rightarrow>
                 let s2 = store_connected True s1;
                     s3 = store_running True s2;
                     s4 = emit Start_receive_thread (s3\<lparr>xr_opaque_thread := True\<rparr>);
                     s5 = snd (opaque_channel_send_data rt testData 5 s4)
                 in Return s5
             | _ \<Rightarrow> Continue (sleep_for 100 s1)))"

fun connect_while ::
  "(XrResult \<times> XrOpaqueDataChannelStatusNV) list \<Rightarrow> XrResult \<Rightarrow> 'a channel_state_scheme
     \<Rightarrow> 'a channel_state_scheme outcome" where
  "connect_while [] rt s =
     (if xr_opaque_connecting s \<and> \<not> xr_opaque_connected s then Polling s
      else Returned (store_connecting False s))"
| "connect_while (poll # polls) rt s =
     (if xr_opaque_connecting s \<and> \<not> xr_opaque_connected s then
        (case connect_body poll rt s of
           Continue s' \<Rightarrow> connect_while polls rt s'
         | Break s' \<Rightarrow> Returned (store_connecting False s')
         | Return s' \<Rightarrow> Returned s'
         | Fault \<Rightarrow> Crashed)
      else Returned (store_connecting False s))"

text \<open>
  \<open>startTime\<close> and \<open>timeoutMs\<close> are declared by the source and never read again.
\<close>

definition opaque_channel_connect_async ::
  "(XrResult \<times> XrOpaqueDataChannelStatusNV) list \<Rightarrow> XrResult \<Rightarrow> 'a channel_state_scheme
     \<Rightarrow> 'a channel_state_scheme outcome" where
  "opaque_channel_connect_async polls rt s =
     (let s0 = store_connecting True s;
          startTime = clock_ms s0;
          timeoutMs = (30000::nat)
      in connect_while polls rt s0)"

subsection \<open>opaque_channel_wait_connection\<close>

text \<open>The blocking variant, which no caller uses. It reads the clock in every iteration.\<close>

definition wait_body ::
  "XrResult \<times> XrOpaqueDataChannelStatusNV \<Rightarrow> nat \<Rightarrow> nat \<Rightarrow> 'a channel_state_scheme
     \<Rightarrow> (bool \<times> 'a channel_state_scheme) flow" where
  "wait_body poll startTime timeoutMs s =
     (if \<not> ext_xrGetOpaqueDataChannelStateNV s then Fault
      else
        let s1 = emit (Call_GetState (xr_opaque_channel s)) s
        in if fst poll \<noteq> XR_SUCCESS then Return (False, s1)
           else (case snd poll of
               XR_OPAQUE_DATA_CHANNEL_STATUS_CONNECTED_NV \<Rightarrow> Return (True, s1)
             | XR_OPAQUE_DATA_CHANNEL_STATUS_DISCONNECTED_NV \<Rightarrow> Return (False, s1)
             | _ \<Rightarrow>
                 let elapsed = clock_ms s1 - startTime
                 in if elapsed > timeoutMs then Return (False, s1)
                    else Continue (False, sleep_for 100 s1)))"

fun wait_while ::
  "(XrResult \<times> XrOpaqueDataChannelStatusNV) list \<Rightarrow> nat \<Rightarrow> nat \<Rightarrow> 'a channel_state_scheme
     \<Rightarrow> (bool \<times> 'a channel_state_scheme) outcome" where
  "wait_while [] startTime timeoutMs s = Polling (False, s)"
| "wait_while (poll # polls) startTime timeoutMs s =
     (case wait_body poll startTime timeoutMs s of
        Continue (_, s') \<Rightarrow> wait_while polls startTime timeoutMs s'
      | Break r \<Rightarrow> Returned r
      | Return r \<Rightarrow> Returned r
      | Fault \<Rightarrow> Crashed)"

definition opaque_channel_wait_connection ::
  "(XrResult \<times> XrOpaqueDataChannelStatusNV) list \<Rightarrow> 'a channel_state_scheme
     \<Rightarrow> (bool \<times> 'a channel_state_scheme) outcome" where
  "opaque_channel_wait_connection polls s =
     (let startTime = clock_ms s;
          timeoutMs = (30000::nat)
      in wait_while polls startTime timeoutMs s)"

subsection \<open>opaque_channel_receive_loop\<close>

text \<open>
  One iteration consumes the runtime's answer to the receive call (its result and the byte
  count) and the channel status found in the local struct after the status poll, whose
  result the source ignores. A received payload is only logged by the source.
\<close>

record receive_answer =
  receive_result :: XrResult
  receivedBytes :: "32 word"
  state_after_poll :: XrOpaqueDataChannelStatusNV

definition receive_body ::
  "receive_answer \<Rightarrow> 'a channel_state_scheme \<Rightarrow> 'a channel_state_scheme flow" where
  "receive_body a s =
     (if \<not> ext_xrReceiveOpaqueDataChannelNV s \<or> \<not> ext_xrGetOpaqueDataChannelStateNV s
      then Fault
      else
        let s1 = emit (Call_Receive (xr_opaque_channel s) 4096) s;
            s2 = emit (Call_GetState (xr_opaque_channel s1)) s1
        in if state_after_poll a = XR_OPAQUE_DATA_CHANNEL_STATUS_DISCONNECTED_NV
           then Break s2
           else Continue (sleep_for 1 s2))"

fun opaque_channel_receive_loop ::
  "receive_answer list \<Rightarrow> 'a channel_state_scheme \<Rightarrow> 'a channel_state_scheme outcome" where
  "opaque_channel_receive_loop [] s =
     (if xr_opaque_running s then Polling s else Returned s)"
| "opaque_channel_receive_loop (a # as) s =
     (if xr_opaque_running s then
        (case receive_body a s of
           Continue s' \<Rightarrow> opaque_channel_receive_loop as s'
         | Break s' \<Rightarrow> Returned s'
         | Return s' \<Rightarrow> Returned s'
         | Fault \<Rightarrow> Crashed)
      else Returned s)"

section \<open>main.cpp\<close>

subsection \<open>Globals of main.cpp\<close>

datatype XrFormFactor =
    XR_FORM_FACTOR_HEAD_MOUNTED_DISPLAY
  | XR_FORM_FACTOR_HANDHELD_DISPLAY

datatype XrViewConfigurationType =
    XR_VIEW_CONFIGURATION_TYPE_PRIMARY_MONO
  | XR_VIEW_CONFIGURATION_TYPE_PRIMARY_STEREO

datatype XrSessionState =
    XR_SESSION_STATE_UNKNOWN
  | XR_SESSION_STATE_IDLE
  | XR_SESSION_STATE_READY
  | XR_SESSION_STATE_SYNCHRONIZED
  | XR_SESSION_STATE_VISIBLE
  | XR_SESSION_STATE_FOCUSED
  | XR_SESSION_STATE_STOPPING
  | XR_SESSION_STATE_LOSS_PENDING
  | XR_SESSION_STATE_EXITING

text \<open>
  Of a swapchain the model keeps the handle, the size and the number of its images
  (the common length of \<^verbatim>\<open>surface_images\<close> and \<^verbatim>\<open>surface_data\<close>).
\<close>

record swapchain_t =
  handle :: "64 word"
  width :: int
  height :: int
  surface_count :: nat

text \<open>
  \<open>frame_counter\<close> and \<open>message_number\<close> are the two function-local statics of
  \<^verbatim>\<open>wWinMain\<close>. They are C++ \<^verbatim>\<open>int\<close>s, 32 bits wide on the platform of the
  source, read as signed numbers by \<open>sint\<close>. Incrementing the largest value is undefined
  in C++; the model wraps around to the smallest, as the two's-complement machine does.
\<close>

record app_state = channel_state +
  app_config_form :: XrFormFactor
  app_config_view :: XrViewConfigurationType
  app_is_ios_mode :: bool
  xr_session_state :: XrSessionState
  xr_running :: bool
  xr_swapchains :: "swapchain_t list"
  frame_counter :: "32 word"
  message_number :: "32 word"

subsection \<open>Command line\<close>

text \<open>
  A wide string is the list of its \<^verbatim>\<open>wchar_t\<close> code units before the terminating
  zero; \<open>L\<close> writes a wide literal. \<open>wcsstr\<close> returns the part of the first string
  that starts at the first occurrence of the second, or \<open>None\<close> for the null pointer.
\<close>

definition L :: "string \<Rightarrow> 16 word list" where
  "L cs = map of_char cs"

fun wcsstr :: "'a list \<Rightarrow> 'a list \<Rightarrow> 'a list option" where
  "wcsstr [] needle = (if needle = [] then Some [] else None)"
| "wcsstr (c # cs) needle =
     (if prefix needle (c # cs) then Some (c # cs) else wcsstr cs needle)"

text \<open>Lines 277 to 285 of \<^verbatim>\<open>wWinMain\<close>; a null \<^verbatim>\<open>cmdLine\<close> is \<open>None\<close>.\<close>

definition parse_command_line :: "16 word list option \<Rightarrow> app_state \<Rightarrow> app_state" where
  "parse_command_line cmdLine s =
     (if cmdLine \<noteq> None \<and> wcsstr (the cmdLine) (L ''-iOS'') \<noteq> None
      then s\<lparr>app_is_ios_mode := True,
             app_config_form := XR_FORM_FACTOR_HANDHELD_DISPLAY,
             app_config_view := XR_VIEW_CONFIGURATION_TYPE_PRIMARY_MONO\<rparr>
      else s)"

subsection \<open>openxr_init: views and swapchains\<close>

text \<open>
  Lines 448 to 451 and 474 to 507. \<open>rt_view_count\<close> is the number of views the
  runtime enumerates for a view configuration, \<open>created i\<close> the swapchain the runtime
  creates for view \<open>i\<close>. The function returns the form factor it asks the system for
  and the new state. \<^verbatim>\<open>xr_views\<close> and \<^verbatim>\<open>xr_config_views\<close> get the same length as
  \<^verbatim>\<open>xr_swapchains\<close> and are not kept.
\<close>

definition openxr_init_views ::
  "(XrViewConfigurationType \<Rightarrow> nat) \<Rightarrow> (nat \<Rightarrow> swapchain_t) \<Rightarrow> app_state
     \<Rightarrow> XrFormFactor \<times> app_state" where
  "openxr_init_views rt_view_count created s =
     (let formFactor = app_config_form s;
          view_count = rt_view_count (app_config_view s)
      in (formFactor,
          s\<lparr>xr_swapchains := xr_swapchains s @ map created [0..<view_count]\<rparr>))"

subsection \<open>openxr_render_layer and openxr_render_frame\<close>

text \<open>
  \<open>view_count\<close> is the count \<^verbatim>\<open>xrLocateViews\<close> writes, \<open>img_id i\<close> the image
  index the runtime hands out for view \<open>i\<close>. Indexing \<^verbatim>\<open>xr_swapchains\<close> (and
  \<^verbatim>\<open>xr_views\<close>, of the same length) or \<^verbatim>\<open>surface_data\<close> out of range is
  undefined in the source; the model returns \<open>None\<close> there. The results of the XR
  calls are not looked at by the source.
\<close>

definition render_view :: "(nat \<Rightarrow> nat) \<Rightarrow> nat \<Rightarrow> app_state \<Rightarrow> app_state option" where
  "render_view img_id i s =
     (if i < length (xr_swapchains s) \<and> img_id i < surface_count (xr_swapchains s ! i)
      then
        let s1 = emit (AcquireSwapchainImage i) s;
            s2 = emit (WaitSwapchainImage i XR_INFINITE_DURATION) s1;
            s3 = emit (Render_layer i (img_id i)) s2;
            s4 = emit (ReleaseSwapchainImage i) s3
        in Some s4
      else None)"

fun render_views :: "(nat \<Rightarrow> nat) \<Rightarrow> nat list \<Rightarrow> app_state \<Rightarrow> app_state option" where
  "render_views img_id [] s = Some s"
| "render_views img_id (i # is) s =
     (case render_view img_id i s of
        None \<Rightarrow> None
      | Some s' \<Rightarrow> render_views img_id is s')"

text \<open>The result is the returned flag, \<^verbatim>\<open>layer.viewCount\<close> and the state.\<close>

definition openxr_render_layer ::
  "nat \<Rightarrow> (nat \<Rightarrow> nat) \<Rightarrow> app_state \<Rightarrow> (bool \<times> nat \<times> app_state) option" where
  "openxr_render_layer view_count img_id s =
     (case render_views img_id [0..<view_count] (emit LocateViews s) of
        None \<Rightarrow> None
      | Some s' \<Rightarrow> Some (True, view_count, s'))"

text \<open>\<open>EndFrame\<close> carries the view counts of the submitted layers: none or one layer.\<close>

definition session_active :: "app_state \<Rightarrow> bool" where
  "session_active s \<longleftrightarrow>
     xr_session_state s = XR_SESSION_STATE_VISIBLE \<or> xr_session_state s = XR_SESSION_STATE_FOCUSED"

definition openxr_render_frame ::
  "nat \<Rightarrow> (nat \<Rightarrow> nat) \<Rightarrow> app_state \<Rightarrow> app_state option" where
  "openxr_render_frame view_count img_id s =
     (let s1 = emit BeginFrame (emit WaitFrame s)
      in if session_active s1 then
           (case openxr_render_layer view_count img_id s1 of
              None \<Rightarrow> None
            | Some (ok, n, s2) \<Rightarrow> Some (emit (EndFrame (if ok then [n] else [])) s2))
         else Some (emit (EndFrame []) s1))"

subsection \<open>The main loop of wWinMain\<close>

fun dec :: "nat \<Rightarrow> string" where
  "dec n = (if n < 10 then [char_of (48 + n)] else dec (n div 10) @ [char_of (48 + n mod 10)])"

text \<open>The conversion \<^verbatim>\<open>%d\<close>.\<close>

definition sprintf_d :: "int \<Rightarrow> string" where
  "sprintf_d n = (if n < 0 then CHR ''-'' # dec (nat (- n)) else dec (nat n))"

definition message :: "int \<Rightarrow> string" where
  "message n = ''Message #'' @ sprintf_d n @ '': OpenXR application data''"

text \<open>
  Lines 335 to 342: the counter and the send. The bytes sent are the text and its
  terminating zero, \<^verbatim>\<open>strlen(message) + 1\<close> of them. \<open>rt\<close> is the runtime's answer
  to the send, which the source does not look at. The comparison with 90 is the signed
  one.
\<close>

definition send_cadence :: "XrResult \<Rightarrow> app_state \<Rightarrow> app_state" where
  "send_cadence rt s =
     (let s1 = s\<lparr>frame_counter := frame_counter s + 1\<rparr>
      in if xr_opaque_connected s1 \<and> word_sle 90 (frame_counter s1) then
           let msg = message (sint (message_number s1));
               s2 = snd (opaque_channel_send_data rt (map of_char msg @ [0])
                           (of_nat (length msg + 1)) s1)
           in s2\<lparr>message_number := message_number s2 + 1\<rparr>
         else s1)"

text \<open>
  One iteration of the main loop after the window messages and \<^verbatim>\<open>openxr_poll_events\<close>
  (lines 321 to 343). The event pump is not modelled: what it leaves behind is the fields
  \<open>xr_running\<close> and \<open>xr_session_state\<close>.
\<close>

record frame_input =
  located_views :: nat
  acquired_image :: "nat \<Rightarrow> nat"
  send_result :: XrResult

definition main_loop_frame :: "frame_input \<Rightarrow> app_state \<Rightarrow> app_state option" where
  "main_loop_frame inp s =
     (if xr_running s then
        (case openxr_render_frame (located_views inp) (acquired_image inp) s of
           None \<Rightarrow> None
         | Some s1 \<Rightarrow>
             let s2 = emit Present_window s1;
                 s3 = (if xr_session_state s2 \<noteq> XR_SESSION_STATE_VISIBLE
                          \<and> xr_session_state s2 \<noteq> XR_SESSION_STATE_FOCUSED
                       then sleep_for 250 s2 else s2)
             in Some (send_cadence (send_result inp) s3))
      else Some s)"

fun main_loop_frames :: "frame_input list \<Rightarrow> app_state \<Rightarrow> app_state option" where
  "main_loop_frames [] s = Some s"
| "main_loop_frames (inp # inps) s =
     (case main_loop_frame inp s of
        None \<Rightarrow> None
      | Some s' \<Rightarrow> main_loop_frames inps s')"

text \<open>Lines 301 to 304: the connect task is started only for a non-null channel.\<close>

definition start_connection_thread :: "app_state \<Rightarrow> app_state" where
  "start_connection_thread s =
     (if xr_opaque_channel s \<noteq> XR_NULL_HANDLE
      then emit Start_connection_thread (s\<lparr>xr_opaque_connection_thread := True\<rparr>)
      else s)"

text \<open>Lines 346 to 354.\<close>

definition cleanup :: "app_state \<Rightarrow> app_state" where
  "cleanup s =
     (let s1 = store_connecting False s;
          s2 = (if xr_opaque_connection_thread s1 then join_connection_thread s1 else s1);
          s3 = opaque_channel_shutdown s2;
          s4 = emit Shutdown_openxr s3;
          s5 = emit Shutdown_d3d s4
      in s5)"

text \<open>Lines 306 to 354: the main loop, over the frames it renders, and then the cleanup.\<close>

definition main_loop_and_cleanup :: "frame_input list \<Rightarrow> app_state \<Rightarrow> app_state option" where
  "main_loop_and_cleanup inps s =
     (case main_loop_frames inps s of
        None \<Rightarrow> None
      | Some s' \<Rightarrow> Some (cleanup s'))"

section \<open>Reading the trace\<close>

definition new_events :: "'a channel_state_scheme \<Rightarrow> 'b channel_state_scheme \<Rightarrow> event list" where
  "new_events s s' = drop (length (trace s)) (trace s')"

fun sent_payload :: "event \<Rightarrow> 8 word list option" where
  "sent_payload (Call_Send h n bytes) = Some bytes"
| "sent_payload _ = None"

definition sent_payloads :: "event list \<Rightarrow> 8 word list list" where
  "sent_payloads es = List.map_filter sent_payload es"

fun on_swapchain :: "nat \<Rightarrow> event \<Rightarrow> bool" where
  "on_swapchain i (AcquireSwapchainImage j) = (i = j)"
| "on_swapchain i (WaitSwapchainImage j t) = (i = j)"
| "on_swapchain i (ReleaseSwapchainImage j) = (i = j)"
| "on_swapchain i _ = False"

text \<open>The payload of the cadence message number \<open>n\<close>: the text and a zero byte.\<close>

definition cadence_payload :: "int \<Rightarrow> 8 word list" where
  "cadence_payload n = map of_char (message n) @ [0]"

section \<open>The tasks side by side\<close>

text \<open>
  The three flags are \<^verbatim>\<open>std::atomic<bool>\<close> with the default sequentially consistent
  loads and stores, so a run of the program is an interleaving of the moves of the
  foreground and of the two background tasks. \<open>step\<close> lets any of them move at any
  time: the connect task enters, or runs its loop over some answers of the runtime up to a
  loop head or to its return; the receive loop likewise; the foreground starts the connect
  task, renders a frame, sends, shuts the channel down or runs the cleanup of
  \<^verbatim>\<open>wWinMain\<close>. Every state the program shows at a loop head or between two calls is
  reachable in this relation.
\<close>

inductive step :: "app_state \<Rightarrow> app_state \<Rightarrow> bool" where
  start_thread: "step s (start_connection_thread s)"
| connect_enter: "step s (store_connecting True s)"
| connect_return: "connect_while polls rt s = Returned s' \<Longrightarrow> step s s'"
| connect_polling: "connect_while polls rt s = Polling s' \<Longrightarrow> step s s'"
| receive_return: "opaque_channel_receive_loop answers s = Returned s' \<Longrightarrow> step s s'"
| receive_polling: "opaque_channel_receive_loop answers s = Polling s' \<Longrightarrow> step s s'"
| send: "step s (snd (opaque_channel_send_data rt data sz s))"
| frame: "main_loop_frame inp s = Some s' \<Longrightarrow> step s s'"
| shutdown: "step s (opaque_channel_shutdown s)"
| cleanup: "step s (cleanup s)"

text \<open>
  The initial states: the flags and thread objects as their initialisers leave them, the
  two counters at zero. The entry points, the channel handle and the session fields are
  whatever \<^verbatim>\<open>openxr_init\<close> made of them.
\<close>

definition initial :: "app_state \<Rightarrow> bool" where
  "initial s \<longleftrightarrow>
     \<not> xr_opaque_running s \<and> \<not> xr_opaque_connected s \<and> \<not> xr_opaque_connecting s
     \<and> \<not> xr_opaque_thread s \<and> \<not> xr_opaque_connection_thread s
     \<and> frame_counter s = 0 \<and> message_number s = 0 \<and> trace s = []"

inductive reachable :: "app_state \<Rightarrow> bool" where
  reach_initial: "initial s \<Longrightarrow> reachable s"
| reach_step: "reachable s \<Longrightarrow> step s s' \<Longrightarrow> reachable s'"

section \<open>Concrete states and inputs\<close>

text \<open>
  The state after a successful \<^verbatim>\<open>openxr_init\<close> in stereo mode: all six entry points
  resolved, channel handle 1, two swapchains of three images, session focused and running.
\<close>

definition two_swapchains :: "swapchain_t list" where
  "two_swapchains =
     [\<lparr>handle = 10, width = 1920, height = 1080, surface_count = 3\<rparr>,
      \<lparr>handle = 11, width = 1920, height = 1080, surface_count = 3\<rparr>]"

definition booted :: app_state where
  "booted =
     \<lparr>ext_xrGetOpaqueDataChannelStateNV = True,
      ext_xrShutdownOpaqueDataChannelNV = True,
      ext_xrDestroyOpaqueDataChannelNV = True,
      ext_xrSendOpaqueDataChannelNV = True,
      ext_xrReceiveOpaqueDataChannelNV = True,
      xr_opaque_channel = 1,
      xr_opaque_running = False,
      xr_opaque_connected = False,
      xr_opaque_connecting = False,
      xr_opaque_thread = False,
      xr_opaque_connection_thread = False,
      clock_ms = 0,
      trace = [],
      app_config_form = XR_FORM_FACTOR_HEAD_MOUNTED_DISPLAY,
      app_config_view = XR_VIEW_CONFIGURATION_TYPE_PRIMARY_STEREO,
      app_is_ios_mode = False,
      xr_session_state = XR_SESSION_STATE_FOCUSED,
      xr_running = True,
      xr_swapchains = two_swapchains,
      frame_counter = 0,
      message_number = 0\<rparr>"

text \<open>The same with the destroy entry point left unresolved.\<close>

definition booted_no_destroy :: app_state where
  "booted_no_destroy = booted\<lparr>ext_xrDestroyOpaqueDataChannelNV := False\<rparr>"

text \<open>
  The booted state with the send entry point left unresolved, and the state in which the
  connect task returns from it when the first poll finds the channel connected.
\<close>

definition booted_no_send :: app_state where
  "booted_no_send = booted\<lparr>ext_xrSendOpaqueDataChannelNV := False\<rparr>"

definition connected_without_send :: app_state where
  "connected_without_send =
     (case opaque_channel_connect_async
             [(XR_SUCCESS, XR_OPAQUE_DATA_CHANNEL_STATUS_CONNECTED_NV)] XR_SUCCESS booted_no_send of
        Returned s \<Rightarrow> s
      | _ \<Rightarrow> booted_no_send)"

text \<open>The state in which the connect task has found the channel connected.\<close>

definition connected_state :: app_state where
  "connected_state =
     (case opaque_channel_connect_async
             [(XR_SUCCESS, XR_OPAQUE_DATA_CHANNEL_STATUS_CONNECTED_NV)] XR_SUCCESS
             (start_connection_thread booted) of
        Returned s \<Rightarrow> s
      | _ \<Rightarrow> booted)"

text \<open>A frame of two located views, image 0 of each swapchain, and a successful send.\<close>

definition stereo_frame :: frame_input where
  "stereo_frame = \<lparr>located_views = 2, acquired_image = (\<lambda>i. 0), send_result = XR_SUCCESS\<rparr>"

definition disconnect_answer :: receive_answer where
  "disconnect_answer =
     \<lparr>receive_result = XR_SUCCESS, receivedBytes = 0,
      state_after_poll = XR_OPAQUE_DATA_CHANNEL_STATUS_DISCONNECTED_NV\<rparr>"

text \<open>The state after the receive loop has seen the channel disconnected and left.\<close>

definition disconnected_state :: app_state where
  "disconnected_state =
     (case opaque_channel_receive_loop [disconnect_answer] connected_state of
        Returned s \<Rightarrow> s
      | _ \<Rightarrow> booted)"

section \<open>The command line in the words of the specification\<close>

text \<open>
  The specification speaks of the flags of the command line. Its arguments are taken to be
  the maximal runs of characters other than the space; the flag is present when one of
  them is \<^verbatim>\<open>-iOS\<close>. This definition follows the specification, not the source.
\<close>

fun split_at :: "'a \<Rightarrow> 'a list \<Rightarrow> 'a list list" where
  "split_at sep [] = [] # []"
| "split_at sep (c # cs) =
     (if c = sep then [] # split_at sep cs
      else (case split_at sep cs of
              [] \<Rightarrow> [c] # []
            | w # ws \<Rightarrow> (c # w) # ws))"

definition spec_arguments :: "16 word list \<Rightarrow> 16 word list list" where
  "spec_arguments cmdLine = filter (\<lambda>w. w \<noteq> []) (split_at 0x20 cmdLine)"

definition spec_flag_present :: "16 word list option \<Rightarrow> bool" where
  "spec_flag_present cmdLine \<longleftrightarrow>
     (case cmdLine of None \<Rightarrow> False | Some c \<Rightarrow> L ''-iOS'' \<in> set (spec_arguments c))"

section \<open>Answers that keep the connect task polling\<close>

text \<open>
  After a successful status poll that finds any status but CONNECTED the connect loop
  sleeps and polls again. \<open>polled n s\<close> is the state \<open>n\<close> such polls after
  \<open>s\<close>.
\<close>

definition keeps_polling :: "XrResult \<times> XrOpaqueDataChannelStatusNV \<Rightarrow> bool" where
  "keeps_polling poll \<longleftrightarrow>
     fst poll = XR_SUCCESS \<and> snd poll \<noteq> XR_OPAQUE_DATA_CHANNEL_STATUS_CONNECTED_NV"

definition polled :: "nat \<Rightarrow> 'a channel_state_scheme \<Rightarrow> 'a channel_state_scheme" where
  "polled n s =
     s\<lparr>clock_ms := clock_ms s + 100 * n,
       trace := trace s @ concat (replicate n [Call_GetState (xr_opaque_channel s), Sleep_ms 100])\<rparr>"

definition still_connecting :: "XrResult \<times> XrOpaqueDataChannelStatusNV" where
  "still_connecting = (XR_SUCCESS, XR_OPAQUE_DATA_CHANNEL_STATUS_CONNECTING_NV)"


section \<open>What a frame does\<close>

text \<open>
  The events of one view of the frame loop, the condition under which the source indexes
  its vectors in range, and the events of a whole frame.
\<close>

definition view_events :: "(nat \<Rightarrow> nat) \<Rightarrow> nat \<Rightarrow> event list" where
  "view_events img_id i =
     [AcquireSwapchainImage i, WaitSwapchainImage i XR_INFINITE_DURATION,
      Render_layer i (img_id i), ReleaseSwapchainImage i]"

definition view_in_range :: "(nat \<Rightarrow> nat) \<Rightarrow> app_state \<Rightarrow> nat \<Rightarrow> bool" where
  "view_in_range img_id s i \<longleftrightarrow>
     i < length (xr_swapchains s) \<and> img_id i < surface_count (xr_swapchains s ! i)"

definition frame_in_range :: "frame_input \<Rightarrow> app_state \<Rightarrow> bool" where
  "frame_in_range inp s \<longleftrightarrow>
     list_all (view_in_range (acquired_image inp) s) [0..<located_views inp]"

definition frame_events :: "nat \<Rightarrow> (nat \<Rightarrow> nat) \<Rightarrow> app_state \<Rightarrow> event list" where
  "frame_events view_count img_id s =
     [WaitFrame, BeginFrame]
     @ (if session_active s
        then LocateViews # concat (map (view_events img_id) [0..<view_count]) @ [EndFrame [view_count]]
        else [EndFrame []])"

text \<open>
  The fields the cadence of the main loop reads and writes, the two counters as the signed
  numbers they stand for, and the payloads sent so far.
\<close>

definition cadence_view ::
  "app_state \<Rightarrow> bool \<times> swapchain_t list \<times> bool \<times> bool \<times> 64 word \<times> int \<times> int \<times> 8 word list list" where
  "cadence_view s =
     (xr_running s, xr_swapchains s, xr_opaque_connected s, ext_xrSendOpaqueDataChannelNV s,
      xr_opaque_channel s, sint (frame_counter s), sint (message_number s),
      sent_payloads (trace s))"

section \<open>What the command line decides\<close>

text \<open>
  The test the source makes, said without the search: the text \<^verbatim>\<open>-iOS\<close> occurs
  somewhere in the command line.
\<close>

definition contains_iOS :: "16 word list option \<Rightarrow> bool" where
  "contains_iOS cmdLine \<longleftrightarrow>
     (case cmdLine of None \<Rightarrow> False | Some c \<Rightarrow> sublist (L ''-iOS'') c)"

text \<open>
  The configuration globals as their initialisers leave them, before any swapchain exists;
  a state of that kind; and the view counts of a runtime that follows OpenXR.
\<close>

definition startup_config :: "app_state \<Rightarrow> bool" where
  "startup_config s \<longleftrightarrow>
     app_config_form s = XR_FORM_FACTOR_HEAD_MOUNTED_DISPLAY
     \<and> app_config_view s = XR_VIEW_CONFIGURATION_TYPE_PRIMARY_STEREO
     \<and> \<not> app_is_ios_mode s \<and> xr_swapchains s = []"

definition startup :: app_state where
  "startup = booted\<lparr>xr_opaque_channel := XR_NULL_HANDLE, xr_swapchains := []\<rparr>"

definition conforming_view_count :: "XrViewConfigurationType \<Rightarrow> nat" where
  "conforming_view_count v =
     (case v of XR_VIEW_CONFIGURATION_TYPE_PRIMARY_MONO \<Rightarrow> 1
              | XR_VIEW_CONFIGURATION_TYPE_PRIMARY_STEREO \<Rightarrow> 2)"

section \<open>How a move may change the flags\<close>

text \<open>
  A move from \<open>s\<close> to \<open>s'\<close> that leaves \<open>connected\<close> set if it was set, and
  that sets \<open>running\<close> only together with \<open>connected\<close>.
\<close>

definition flag_step :: "'a channel_state_scheme \<Rightarrow> 'a channel_state_scheme \<Rightarrow> bool" where
  "flag_step s s' \<longleftrightarrow>
     (xr_opaque_connected s \<longrightarrow> xr_opaque_connected s')
     \<and> (xr_opaque_running s' \<longrightarrow> xr_opaque_running s \<or> xr_opaque_connected s')"

text \<open>
  The state after the disconnect, 89 frames into the main loop: the next frame is the
  ninetieth.
\<close>

definition late_state :: app_state where
  "late_state = disconnected_state\<lparr>frame_counter := 89\<rparr>"

section \<open>Properties\<close>

subsection \<open>Basic facts\<close>

lemmas channel_ops =
  emit_def sleep_for_def store_connecting_def store_running_def store_connected_def
  join_connection_thread_def join_receive_thread_def

lemma booted_fields [simp]:
  "ext_xrGetOpaqueDataChannelStateNV booted"
  "ext_xrShutdownOpaqueDataChannelNV booted"
  "ext_xrDestroyOpaqueDataChannelNV booted"
  "ext_xrSendOpaqueDataChannelNV booted"
  "ext_xrReceiveOpaqueDataChannelNV booted"
  "xr_opaque_channel booted = 1"
  "\<not> xr_opaque_running booted"
  "\<not> xr_opaque_connected booted"
  "\<not> xr_opaque_connecting booted"
  "\<not> xr_opaque_thread booted"
  "\<not> xr_opaque_connection_thread booted"
  "clock_ms booted = 0"
  "trace booted = []"
  "app_config_form booted = XR_FORM_FACTOR_HEAD_MOUNTED_DISPLAY"
  "app_config_view booted = XR_VIEW_CONFIGURATION_TYPE_PRIMARY_STEREO"
  "\<not> app_is_ios_mode booted"
  "xr_session_state booted = XR_SESSION_STATE_FOCUSED"
  "xr_running booted"
  "xr_swapchains booted = two_swapchains"
  "frame_counter booted = 0"
  "message_number booted = 0"
  by (simp_all add: booted_def)

lemma booted_no_destroy_fields [simp]:
  "ext_xrShutdownOpaqueDataChannelNV booted_no_destroy"
  "\<not> ext_xrDestroyOpaqueDataChannelNV booted_no_destroy"
  "xr_opaque_channel booted_no_destroy = 1"
  "\<not> xr_opaque_thread booted_no_destroy"
  "\<not> xr_opaque_connection_thread booted_no_destroy"
  "trace booted_no_destroy = []"
  by (simp_all add: booted_no_destroy_def)

lemma connected_state_eq:
  "connected_state = booted
     \<lparr>xr_opaque_running := True, xr_opaque_connected := True, xr_opaque_connecting := True,
      xr_opaque_thread := True, xr_opaque_connection_thread := True,
      trace := [Start_connection_thread, Store_connecting True, Call_GetState 1,
                Store_connected True, Store_running True, Start_receive_thread,
                Call_Send 1 5 [1, 2, 3, 4, 5]]\<rparr>"
  by (simp add: connected_state_def opaque_channel_connect_async_def connect_body_def
      start_connection_thread_def opaque_channel_send_data_def channel_ops Let_def
      XR_NULL_HANDLE_def XR_SUCCESS_def testData_def)

lemma connected_state_fields [simp]:
  "ext_xrGetOpaqueDataChannelStateNV connected_state"
  "ext_xrShutdownOpaqueDataChannelNV connected_state"
  "ext_xrDestroyOpaqueDataChannelNV connected_state"
  "ext_xrSendOpaqueDataChannelNV connected_state"
  "ext_xrReceiveOpaqueDataChannelNV connected_state"
  "xr_opaque_channel connected_state = 1"
  "xr_opaque_running connected_state"
  "xr_opaque_connected connected_state"
  "xr_opaque_connecting connected_state"
  "xr_opaque_thread connected_state"
  "xr_opaque_connection_thread connected_state"
  "xr_session_state connected_state = XR_SESSION_STATE_FOCUSED"
  "xr_running connected_state"
  "xr_swapchains connected_state = two_swapchains"
  "frame_counter connected_state = 0"
  "message_number connected_state = 0"
  by (simp_all add: connected_state_eq)

lemma sent_payloads_append [simp]:
  "sent_payloads (xs @ ys) = sent_payloads xs @ sent_payloads ys"
  by (simp add: sent_payloads_def List.map_filter_def)

lemma sent_payloads_simps [simp]:
  "sent_payloads [] = []"
  "sent_payloads (e # es) =
     (case sent_payload e of None \<Rightarrow> sent_payloads es | Some b \<Rightarrow> b # sent_payloads es)"
  by (simp_all add: sent_payloads_def List.map_filter_def split: option.splits)

lemma sent_payloads_polls [simp]:
  "sent_payloads (concat (replicate n [Call_GetState h, Sleep_ms ms])) = []"
  by (induction n) simp_all

lemma booted_no_send_fields [simp]:
  "ext_xrGetOpaqueDataChannelStateNV booted_no_send"
  "\<not> ext_xrSendOpaqueDataChannelNV booted_no_send"
  "xr_opaque_channel booted_no_send = 1"
  "\<not> xr_opaque_connected booted_no_send"
  "trace booted_no_send = []"
  by (simp_all add: booted_no_send_def)

lemma shutdown_events:
  "trace (opaque_channel_shutdown s) = trace s @
     [Store_connecting False, Store_running False]
     @ (if xr_opaque_connection_thread s then [Join_connection_thread] else [])
     @ (if xr_opaque_thread s then [Join_receive_thread] else [])
     @ (if xr_opaque_channel s \<noteq> XR_NULL_HANDLE \<and> ext_xrShutdownOpaqueDataChannelNV s
        then [Call_Shutdown (xr_opaque_channel s)] else [])
     @ (if xr_opaque_channel s \<noteq> XR_NULL_HANDLE \<and> ext_xrDestroyOpaqueDataChannelNV s
        then [Call_Destroy (xr_opaque_channel s), Store_channel XR_NULL_HANDLE] else [])"
  by (simp add: opaque_channel_shutdown_def channel_ops Let_def)

lemma shutdown_channel:
  "xr_opaque_channel (opaque_channel_shutdown s) =
     (if ext_xrDestroyOpaqueDataChannelNV s then XR_NULL_HANDLE else xr_opaque_channel s)"
  by (simp add: opaque_channel_shutdown_def channel_ops Let_def)

lemma shutdown_fields:
  "\<not> xr_opaque_connecting (opaque_channel_shutdown s)"
  "\<not> xr_opaque_running (opaque_channel_shutdown s)"
  "\<not> xr_opaque_connection_thread (opaque_channel_shutdown s)"
  "\<not> xr_opaque_thread (opaque_channel_shutdown s)"
  "xr_opaque_connected (opaque_channel_shutdown s) = xr_opaque_connected s"
  "ext_xrGetOpaqueDataChannelStateNV (opaque_channel_shutdown s) = ext_xrGetOpaqueDataChannelStateNV s"
  "ext_xrShutdownOpaqueDataChannelNV (opaque_channel_shutdown s) = ext_xrShutdownOpaqueDataChannelNV s"
  "ext_xrDestroyOpaqueDataChannelNV (opaque_channel_shutdown s) = ext_xrDestroyOpaqueDataChannelNV s"
  "ext_xrSendOpaqueDataChannelNV (opaque_channel_shutdown s) = ext_xrSendOpaqueDataChannelNV s"
  "ext_xrReceiveOpaqueDataChannelNV (opaque_channel_shutdown s) = ext_xrReceiveOpaqueDataChannelNV s"
  by (simp_all add: opaque_channel_shutdown_def channel_ops Let_def)

lemma shutdown_when_down:
  "\<not> xr_opaque_connecting s \<Longrightarrow> \<not> xr_opaque_running s \<Longrightarrow> \<not> xr_opaque_connection_thread s
   \<Longrightarrow> \<not> xr_opaque_thread s \<Longrightarrow> xr_opaque_channel s = XR_NULL_HANDLE
   \<Longrightarrow> opaque_channel_shutdown s = s\<lparr>trace := trace s @ [Store_connecting False, Store_running False]\<rparr>"
  by (simp add: opaque_channel_shutdown_def channel_ops Let_def)

subsection \<open>Sending\<close>

text \<open>
  C6. For every buffer and length, \<open>opaque_channel_send_data\<close> returns false and leaves
  the state, and with it the trace of runtime calls, untouched when the send entry point is
  unresolved or the channel handle is null. Otherwise it calls the runtime's send exactly
  once, with the handle, the length cast to 32 bits and the buffer, and returns true if
  and only if the runtime answers \<open>XR_SUCCESS\<close>.
\<close>

theorem send_data_contract:
  "(\<not> ext_xrSendOpaqueDataChannelNV s \<or> xr_opaque_channel s = XR_NULL_HANDLE \<longrightarrow>
      opaque_channel_send_data rt data sz s = (False, s))
   \<and> (ext_xrSendOpaqueDataChannelNV s \<and> xr_opaque_channel s \<noteq> XR_NULL_HANDLE \<longrightarrow>
      fst (opaque_channel_send_data rt data sz s) = (rt = XR_SUCCESS)
      \<and> snd (opaque_channel_send_data rt data sz s)
          = emit (Call_Send (xr_opaque_channel s) (ucast sz) data) s
      \<and> new_events s (snd (opaque_channel_send_data rt data sz s))
          = [Call_Send (xr_opaque_channel s) (ucast sz) data])"
  by (simp add: opaque_channel_send_data_def new_events_def emit_def Let_def)

text \<open>
  The contract at the booted state: a send the runtime accepts, one it refuses, and one
  with a null handle.
\<close>

theorem send_data_contract_witness:
  "ext_xrSendOpaqueDataChannelNV booted \<and> xr_opaque_channel booted \<noteq> XR_NULL_HANDLE
   \<and> fst (opaque_channel_send_data XR_SUCCESS testData 5 booted)
   \<and> \<not> fst (opaque_channel_send_data (-1) testData 5 booted)
   \<and> new_events booted (snd (opaque_channel_send_data XR_SUCCESS testData 5 booted))
       = [Call_Send 1 5 [1, 2, 3, 4, 5]]
   \<and> xr_opaque_channel (booted\<lparr>xr_opaque_channel := XR_NULL_HANDLE\<rparr>) = XR_NULL_HANDLE
   \<and> opaque_channel_send_data XR_SUCCESS testData 5 (booted\<lparr>xr_opaque_channel := XR_NULL_HANDLE\<rparr>)
       = (False, booted\<lparr>xr_opaque_channel := XR_NULL_HANDLE\<rparr>)"
  using send_data_contract [of booted XR_SUCCESS testData 5]
    send_data_contract [of booted "-1" testData 5]
    send_data_contract [of "booted\<lparr>xr_opaque_channel := XR_NULL_HANDLE\<rparr>" XR_SUCCESS testData 5]
  by (simp add: XR_NULL_HANDLE_def XR_SUCCESS_def testData_def new_events_def emit_def)

subsection \<open>Shutting the channel down\<close>

text \<open>
  C4, as the specification states it, fails: the steps after the two stores are each behind
  a guard. A second call performs the two stores only; with the destroy entry point
  unresolved the handle is neither destroyed nor nulled; and in the cleanup of
  \<^verbatim>\<open>wWinMain\<close> the connect task, though started, is joined by the caller before
  \<open>opaque_channel_shutdown\<close> runs, which then does not join it.
\<close>

theorem shutdown_order_counterexample:
  "new_events (opaque_channel_shutdown booted)
      (opaque_channel_shutdown (opaque_channel_shutdown booted))
     = [Store_connecting False, Store_running False]
   \<and> new_events booted_no_destroy (opaque_channel_shutdown booted_no_destroy)
     = [Store_connecting False, Store_running False, Call_Shutdown 1]
   \<and> new_events (start_connection_thread booted) (cleanup (start_connection_thread booted))
     = [Store_connecting False, Join_connection_thread,
        Store_connecting False, Store_running False,
        Call_Shutdown 1, Call_Destroy 1, Store_channel 0,
        Shutdown_openxr, Shutdown_d3d]"
  by (simp add: shutdown_channel shutdown_events shutdown_fields new_events_def XR_NULL_HANDLE_def
      cleanup_def start_connection_thread_def channel_ops Let_def)

text \<open>
  C4, amended. Every call of \<open>opaque_channel_shutdown\<close> performs, in this order and
  nothing else: the store of false to \<open>connecting\<close>, the store of false to
  \<open>running\<close>; the join of the connect task if its thread object is joinable; the join
  of the receive task if its thread object is joinable; the runtime's shutdown on the
  channel if the handle is not null and the shutdown entry point is resolved; the
  runtime's destroy on the channel followed by the store of null to the handle if the
  handle is not null and the destroy entry point is resolved.
\<close>

theorem shutdown_order:
  "new_events s (opaque_channel_shutdown s) =
     [Store_connecting False, Store_running False]
     @ (if xr_opaque_connection_thread s then [Join_connection_thread] else [])
     @ (if xr_opaque_thread s then [Join_receive_thread] else [])
     @ (if xr_opaque_channel s \<noteq> XR_NULL_HANDLE \<and> ext_xrShutdownOpaqueDataChannelNV s
        then [Call_Shutdown (xr_opaque_channel s)] else [])
     @ (if xr_opaque_channel s \<noteq> XR_NULL_HANDLE \<and> ext_xrDestroyOpaqueDataChannelNV s
        then [Call_Destroy (xr_opaque_channel s), Store_channel XR_NULL_HANDLE] else [])"
  by (simp add: new_events_def shutdown_events)

text \<open>The full sequence, from the state in which both tasks run.\<close>

theorem shutdown_order_witness:
  "new_events connected_state (opaque_channel_shutdown connected_state) =
     [Store_connecting False, Store_running False, Join_connection_thread, Join_receive_thread,
      Call_Shutdown 1, Call_Destroy 1, Store_channel 0]"
  using shutdown_order [of connected_state]
  by (simp add: XR_NULL_HANDLE_def)

text \<open>
  C7, as the specification states it, fails: with a non-null handle and the destroy entry
  point unresolved, the handle is still non-null after shutdown, and a second shutdown
  calls the runtime's shutdown on it again.
\<close>

theorem shutdown_handle_counterexample:
  "xr_opaque_channel booted_no_destroy \<noteq> XR_NULL_HANDLE
   \<and> \<not> ext_xrDestroyOpaqueDataChannelNV booted_no_destroy
   \<and> xr_opaque_channel (opaque_channel_shutdown booted_no_destroy) \<noteq> XR_NULL_HANDLE
   \<and> new_events (opaque_channel_shutdown booted_no_destroy)
         (opaque_channel_shutdown (opaque_channel_shutdown booted_no_destroy))
       = [Store_connecting False, Store_running False, Call_Shutdown 1]"
  by (simp add: shutdown_channel shutdown_events shutdown_fields new_events_def XR_NULL_HANDLE_def)

text \<open>
  C7, amended. If the handle is null or the destroy entry point is resolved, the handle
  reads null after \<open>opaque_channel_shutdown\<close>, and a second call changes nothing but
  the trace, to which it adds its two flag stores: it joins nothing and calls the runtime
  for nothing. If the handle is not null and the destroy entry point is unresolved, the
  handle is left as it was.
\<close>

theorem shutdown_handle_null:
  "(xr_opaque_channel s = XR_NULL_HANDLE \<or> ext_xrDestroyOpaqueDataChannelNV s \<longrightarrow>
      xr_opaque_channel (opaque_channel_shutdown s) = XR_NULL_HANDLE
      \<and> opaque_channel_shutdown (opaque_channel_shutdown s)
          = (opaque_channel_shutdown s)
              \<lparr>trace := trace (opaque_channel_shutdown s)
                          @ [Store_connecting False, Store_running False]\<rparr>)
   \<and> (xr_opaque_channel s \<noteq> XR_NULL_HANDLE \<and> \<not> ext_xrDestroyOpaqueDataChannelNV s \<longrightarrow>
      xr_opaque_channel (opaque_channel_shutdown s) = xr_opaque_channel s)"
proof -
  have null: "xr_opaque_channel (opaque_channel_shutdown s) = XR_NULL_HANDLE"
    if "xr_opaque_channel s = XR_NULL_HANDLE \<or> ext_xrDestroyOpaqueDataChannelNV s"
    using that by (auto simp: shutdown_channel)
  have again: "opaque_channel_shutdown (opaque_channel_shutdown s)
          = (opaque_channel_shutdown s)
              \<lparr>trace := trace (opaque_channel_shutdown s)
                          @ [Store_connecting False, Store_running False]\<rparr>"
    if "xr_opaque_channel s = XR_NULL_HANDLE \<or> ext_xrDestroyOpaqueDataChannelNV s"
    by (rule shutdown_when_down) (simp_all add: shutdown_fields null [OF that])
  show ?thesis
    using null again by (simp add: shutdown_channel)
qed

text \<open>Both cases: the booted state, and the one without the destroy entry point.\<close>

theorem shutdown_handle_null_witness:
  "ext_xrDestroyOpaqueDataChannelNV booted
   \<and> xr_opaque_channel booted \<noteq> XR_NULL_HANDLE
   \<and> xr_opaque_channel (opaque_channel_shutdown booted) = XR_NULL_HANDLE
   \<and> new_events (opaque_channel_shutdown booted)
         (opaque_channel_shutdown (opaque_channel_shutdown booted))
       = [Store_connecting False, Store_running False]
   \<and> xr_opaque_channel booted_no_destroy \<noteq> XR_NULL_HANDLE
   \<and> \<not> ext_xrDestroyOpaqueDataChannelNV booted_no_destroy
   \<and> xr_opaque_channel (opaque_channel_shutdown booted_no_destroy) = 1"
  using shutdown_handle_null [of booted] shutdown_handle_null [of booted_no_destroy]
  by (simp add: XR_NULL_HANDLE_def new_events_def)

subsection \<open>The connect task\<close>

lemma polled_fields [simp]:
  "ext_xrGetOpaqueDataChannelStateNV (polled n s) = ext_xrGetOpaqueDataChannelStateNV s"
  "ext_xrSendOpaqueDataChannelNV (polled n s) = ext_xrSendOpaqueDataChannelNV s"
  "xr_opaque_channel (polled n s) = xr_opaque_channel s"
  "xr_opaque_running (polled n s) = xr_opaque_running s"
  "xr_opaque_connected (polled n s) = xr_opaque_connected s"
  "xr_opaque_connecting (polled n s) = xr_opaque_connecting s"
  "xr_opaque_thread (polled n s) = xr_opaque_thread s"
  "clock_ms (polled n s) = clock_ms s + 100 * n"
  "trace (polled n s) = trace s @ concat (replicate n [Call_GetState (xr_opaque_channel s), Sleep_ms 100])"
  by (simp_all add: polled_def)

lemma polled_0 [simp]: "polled 0 s = s"
  by (simp add: polled_def)

lemma connect_body_keeps:
  "keeps_polling poll \<Longrightarrow> ext_xrGetOpaqueDataChannelStateNV s \<Longrightarrow>
     connect_body poll rt s = Continue (polled (Suc 0) s)"
  by (cases poll)
     (auto simp: keeps_polling_def connect_body_def polled_def channel_ops Let_def
        split: XrOpaqueDataChannelStatusNV.splits)

lemma polled_Suc: "polled n (polled (Suc 0) s) = polled (Suc n) s"
  by (simp add: polled_def)

lemma connect_while_keeps:
  "list_all keeps_polling pre \<Longrightarrow> ext_xrGetOpaqueDataChannelStateNV s \<Longrightarrow>
   xr_opaque_connecting s \<Longrightarrow> \<not> xr_opaque_connected s \<Longrightarrow>
     connect_while (pre @ rest) rt s = connect_while rest rt (polled (length pre) s)"
proof (induction pre arbitrary: s)
  case Nil
  then show ?case by simp
next
  case (Cons p pre)
  from Cons.prems have body: "connect_body p rt s = Continue (polled (Suc 0) s)"
    by (simp add: connect_body_keeps)
  from Cons.prems have "connect_while (pre @ rest) rt (polled (Suc 0) s)
      = connect_while rest rt (polled (length pre) (polled (Suc 0) s))"
    by (intro Cons.IH) simp_all
  with Cons.prems body show ?case
    by (simp add: polled_Suc)
qed

lemma connect_body_connected:
  "ext_xrGetOpaqueDataChannelStateNV s \<Longrightarrow>
   connect_body (XR_SUCCESS, XR_OPAQUE_DATA_CHANNEL_STATUS_CONNECTED_NV) rt s =
     Return (snd (opaque_channel_send_data rt testData 5
       (s\<lparr>xr_opaque_connected := True, xr_opaque_running := True, xr_opaque_thread := True,
          trace := trace s @ [Call_GetState (xr_opaque_channel s), Store_connected True,
                              Store_running True, Start_receive_thread]\<rparr>)))"
  by (simp add: connect_body_def channel_ops Let_def)

lemma connected_without_send_eq:
  "opaque_channel_connect_async
     [(XR_SUCCESS, XR_OPAQUE_DATA_CHANNEL_STATUS_CONNECTED_NV)] XR_SUCCESS booted_no_send
   = Returned connected_without_send"
  "connected_without_send = booted_no_send
     \<lparr>xr_opaque_connecting := True, xr_opaque_connected := True, xr_opaque_running := True,
      xr_opaque_thread := True,
      trace := [Store_connecting True, Call_GetState 1, Store_connected True,
                Store_running True, Start_receive_thread]\<rparr>"
  by (simp_all add: connected_without_send_def opaque_channel_connect_async_def connect_body_def
      opaque_channel_send_data_def channel_ops Let_def)

text \<open>
  C5, as the specification states it, fails: the handshake is emitted only if the send
  operation gets past its guard. With the send entry point unresolved, the connect task
  that finds the channel connected sets both flags, starts the receive task and returns,
  and no payload has been sent.
\<close>

theorem handshake_counterexample:
  "\<not> ext_xrSendOpaqueDataChannelNV booted_no_send
   \<and> xr_opaque_channel booted_no_send \<noteq> XR_NULL_HANDLE
   \<and> opaque_channel_connect_async
        [(XR_SUCCESS, XR_OPAQUE_DATA_CHANNEL_STATUS_CONNECTED_NV)] XR_SUCCESS booted_no_send
      = Returned connected_without_send
   \<and> xr_opaque_connected connected_without_send
   \<and> xr_opaque_running connected_without_send
   \<and> xr_opaque_thread connected_without_send
   \<and> new_events booted_no_send connected_without_send
      = [Store_connecting True, Call_GetState 1, Store_connected True, Store_running True,
         Start_receive_thread]
   \<and> sent_payloads (new_events booted_no_send connected_without_send) = []"
  by (simp add: connected_without_send_eq(1))
     (simp add: connected_without_send_eq(2) new_events_def XR_NULL_HANDLE_def)

text \<open>
  C5, amended. Let the connect task be started in a state where \<open>connected\<close> is false,
  and let the runtime answer its polls with any number of answers that keep it polling and
  then with CONNECTED. Then the task returns; in the state it returns in \<open>connected\<close>
  and \<open>running\<close> are true and the receive task is started; and what it did is, in
  order: the store to \<open>connecting\<close>, the polls with their sleeps, the poll that finds
  CONNECTED, the stores of true to \<open>connected\<close> and to \<open>running\<close>, the start of the
  receive task and one call of the send operation on the five bytes 01 02 03 04 05. The
  handshake is sent to the runtime exactly once if the send entry point is resolved and
  the handle is not null, and not at all otherwise; it is the only payload of the task.
\<close>

theorem connect_on_connected:
  assumes "list_all keeps_polling pre"
    and "ext_xrGetOpaqueDataChannelStateNV s"
    and "\<not> xr_opaque_connected s"
  shows "\<exists>s'. opaque_channel_connect_async
                 (pre @ (XR_SUCCESS, XR_OPAQUE_DATA_CHANNEL_STATUS_CONNECTED_NV) # rest) rt s
               = Returned s'
          \<and> xr_opaque_connected s' \<and> xr_opaque_running s' \<and> xr_opaque_thread s'
          \<and> new_events s s' =
              Store_connecting True
              # concat (replicate (length pre) [Call_GetState (xr_opaque_channel s), Sleep_ms 100])
              @ [Call_GetState (xr_opaque_channel s), Store_connected True, Store_running True,
                 Start_receive_thread]
              @ (if ext_xrSendOpaqueDataChannelNV s \<and> xr_opaque_channel s \<noteq> XR_NULL_HANDLE
                 then [Call_Send (xr_opaque_channel s) 5 [0x01, 0x02, 0x03, 0x04, 0x05]]
                 else [])
          \<and> sent_payloads (new_events s s') =
              (if ext_xrSendOpaqueDataChannelNV s \<and> xr_opaque_channel s \<noteq> XR_NULL_HANDLE
               then [0x01, 0x02, 0x03, 0x04, 0x05] # [] else [])"
proof -
  let ?s0 = "store_connecting True s"
  have s0: "ext_xrGetOpaqueDataChannelStateNV ?s0" "xr_opaque_connecting ?s0"
    "\<not> xr_opaque_connected ?s0"
    using assms by (simp_all add: channel_ops)
  have "opaque_channel_connect_async
          (pre @ (XR_SUCCESS, XR_OPAQUE_DATA_CHANNEL_STATUS_CONNECTED_NV) # rest) rt s
        = connect_while ((XR_SUCCESS, XR_OPAQUE_DATA_CHANNEL_STATUS_CONNECTED_NV) # rest) rt
            (polled (length pre) ?s0)"
    using connect_while_keeps [OF assms(1) s0]
    by (simp add: opaque_channel_connect_async_def Let_def)
  also have "\<dots> = Returned (snd (opaque_channel_send_data rt testData 5
       ((polled (length pre) ?s0)\<lparr>xr_opaque_connected := True, xr_opaque_running := True,
          xr_opaque_thread := True,
          trace := trace (polled (length pre) ?s0)
            @ [Call_GetState (xr_opaque_channel s), Store_connected True,
               Store_running True, Start_receive_thread]\<rparr>)))"
    using s0 by (simp add: connect_body_connected) (simp add: channel_ops)
  finally show ?thesis
    by (simp add: opaque_channel_send_data_def new_events_def channel_ops Let_def testData_def)
qed

text \<open>
  Scenario 2 of the specification: twelve polls find CONNECTING, the thirteenth CONNECTED;
  the handshake is the one payload sent. The same answers with the send entry point
  unresolved: no payload.
\<close>

theorem connect_on_connected_witness:
  "list_all keeps_polling (replicate 12 still_connecting)
   \<and> ext_xrGetOpaqueDataChannelStateNV booted \<and> \<not> xr_opaque_connected booted
   \<and> (\<exists>s'. opaque_channel_connect_async
              (replicate 12 still_connecting
                 @ (XR_SUCCESS, XR_OPAQUE_DATA_CHANNEL_STATUS_CONNECTED_NV) # []) XR_SUCCESS booted
            = Returned s'
         \<and> xr_opaque_connected s' \<and> xr_opaque_running s' \<and> xr_opaque_thread s'
         \<and> sent_payloads (new_events booted s') = [0x01, 0x02, 0x03, 0x04, 0x05] # [])
   \<and> ext_xrGetOpaqueDataChannelStateNV booted_no_send \<and> \<not> xr_opaque_connected booted_no_send
   \<and> (\<exists>s'. opaque_channel_connect_async
              (replicate 12 still_connecting
                 @ (XR_SUCCESS, XR_OPAQUE_DATA_CHANNEL_STATUS_CONNECTED_NV) # []) XR_SUCCESS
              booted_no_send
            = Returned s'
         \<and> xr_opaque_connected s' \<and> xr_opaque_running s' \<and> xr_opaque_thread s'
         \<and> sent_payloads (new_events booted_no_send s') = [])"
proof -
  have pre: "list_all keeps_polling (replicate 12 still_connecting)"
    by (simp add: list_all_iff keeps_polling_def still_connecting_def)
  from connect_on_connected [OF pre, of booted "[]" XR_SUCCESS]
  have sent: "\<exists>s'. opaque_channel_connect_async
              (replicate 12 still_connecting
                 @ (XR_SUCCESS, XR_OPAQUE_DATA_CHANNEL_STATUS_CONNECTED_NV) # []) XR_SUCCESS booted
            = Returned s'
         \<and> xr_opaque_connected s' \<and> xr_opaque_running s' \<and> xr_opaque_thread s'
         \<and> sent_payloads (new_events booted s') = [0x01, 0x02, 0x03, 0x04, 0x05] # []"
    by (auto simp: XR_NULL_HANDLE_def)
  from connect_on_connected [OF pre, of booted_no_send "[]" XR_SUCCESS]
  have unsent: "\<exists>s'. opaque_channel_connect_async
              (replicate 12 still_connecting
                 @ (XR_SUCCESS, XR_OPAQUE_DATA_CHANNEL_STATUS_CONNECTED_NV) # []) XR_SUCCESS
              booted_no_send
            = Returned s'
         \<and> xr_opaque_connected s' \<and> xr_opaque_running s' \<and> xr_opaque_thread s'
         \<and> sent_payloads (new_events booted_no_send s') = []"
    by auto
  from pre sent unsent show ?thesis
    by simp
qed

text \<open>
  However many polls find CONNECTING, the task is still polling after them: nothing in the
  loop looks at the clock.
\<close>

lemma connect_async_polls_on:
  assumes "ext_xrGetOpaqueDataChannelStateNV s" and "\<not> xr_opaque_connected s"
  shows "opaque_channel_connect_async (replicate n still_connecting) rt s
           = Polling (polled n (store_connecting True s))"
proof -
  let ?s0 = "store_connecting True s"
  have pre: "list_all keeps_polling (replicate n still_connecting)"
    by (simp add: list_all_iff keeps_polling_def still_connecting_def)
  have s0: "ext_xrGetOpaqueDataChannelStateNV ?s0" "xr_opaque_connecting ?s0"
    "\<not> xr_opaque_connected ?s0"
    using assms by (simp_all add: channel_ops)
  show ?thesis
    using connect_while_keeps [OF pre s0, of "[]" rt] s0
    by (simp add: opaque_channel_connect_async_def Let_def)
qed

text \<open>
  C2. The claim is right about the design and the source misses it: \<open>startTime\<close> and
  \<open>timeoutMs\<close> are set and never compared. With the runtime answering CONNECTING to
  301 polls and nobody clearing \<open>connecting\<close>, 30.1 seconds of sleeps have passed and
  the task is still in its loop, \<open>connecting\<close> still true.
\<close>

theorem connect_async_no_timeout:
  "\<exists>s'. opaque_channel_connect_async (replicate 301 still_connecting) XR_SUCCESS
            (start_connection_thread booted) = Polling s'
        \<and> clock_ms s' = 30100 \<and> xr_opaque_connecting s' \<and> \<not> xr_opaque_connected s'"
proof -
  let ?s0 = "store_connecting True (start_connection_thread booted)"
  have pre: "list_all keeps_polling (replicate 301 still_connecting)"
    by (simp add: list_all_iff keeps_polling_def still_connecting_def)
  have s0: "ext_xrGetOpaqueDataChannelStateNV ?s0" "xr_opaque_connecting ?s0"
    "\<not> xr_opaque_connected ?s0" "clock_ms ?s0 = 0"
    by (simp_all add: channel_ops start_connection_thread_def)
  have "opaque_channel_connect_async (replicate 301 still_connecting) XR_SUCCESS
            (start_connection_thread booted) = Polling (polled 301 ?s0)"
    using connect_while_keeps [OF pre s0(1-3), of "[]" XR_SUCCESS] s0
    by (simp add: opaque_channel_connect_async_def Let_def)
  then show ?thesis
    using s0 by simp
qed

text \<open>
  The other way out of the loop works: when \<open>connecting\<close> reads false at the loop
  head, the task leaves the loop and stores false to \<open>connecting\<close>.
\<close>

lemma connect_while_cancelled:
  "\<not> xr_opaque_connecting s \<Longrightarrow> connect_while polls rt s = Returned (store_connecting False s)"
  by (cases polls) simp_all

text \<open>
  The blocking variant does compare the elapsed time: on the same answers it returns false
  at the first poll that finds more than 30000 ms elapsed. On the clock of the model,
  which only the sleeps advance, that is the poll after 301 sleeps.
\<close>

lemma wait_body_keeps:
  "ext_xrGetOpaqueDataChannelStateNV s \<Longrightarrow> clock_ms s - st \<le> 30000 \<Longrightarrow>
     wait_body still_connecting st 30000 s = Continue (False, polled (Suc 0) s)"
  by (simp add: wait_body_def still_connecting_def polled_def channel_ops Let_def)

lemma wait_while_keeps:
  "ext_xrGetOpaqueDataChannelStateNV s \<Longrightarrow> st \<le> clock_ms s \<Longrightarrow>
   clock_ms s - st + 100 * n \<le> 30100 \<Longrightarrow>
     wait_while (replicate n still_connecting @ rest) st 30000 s
       = wait_while rest st 30000 (polled n s)"
proof (induction n arbitrary: s)
  case 0
  then show ?case by simp
next
  case (Suc n)
  from Suc.prems have body:
    "wait_body still_connecting st 30000 s = Continue (False, polled (Suc 0) s)"
    by (intro wait_body_keeps) simp_all
  from Suc.prems have "wait_while (replicate n still_connecting @ rest) st 30000 (polled (Suc 0) s)
      = wait_while rest st 30000 (polled n (polled (Suc 0) s))"
    by (intro Suc.IH) simp_all
  with body show ?case
    by (simp add: polled_Suc)
qed

lemma wait_connection_times_out:
  "\<exists>s'. opaque_channel_wait_connection (replicate 301 still_connecting @ [still_connecting]) booted
           = Returned (False, s') \<and> clock_ms s' = 30100"
proof -
  have "opaque_channel_wait_connection (replicate 301 still_connecting @ [still_connecting]) booted
      = wait_while [still_connecting] 0 30000 (polled 301 booted)"
    using wait_while_keeps [of booted 0 301 "[still_connecting]"]
    by (simp add: opaque_channel_wait_connection_def Let_def)
  also have "\<dots> = Returned (False, emit (Call_GetState 1) (polled 301 booted))"
    by (simp add: wait_body_def still_connecting_def Let_def emit_def)
  finally show ?thesis
    by (auto simp: emit_def)
qed

subsection \<open>The frame step\<close>

lemma view_in_range_trace [simp]:
  "view_in_range img_id (s\<lparr>trace := t\<rparr>) = view_in_range img_id s"
  by (simp add: fun_eq_iff view_in_range_def)

lemma render_views_events:
  "list_all (view_in_range img_id s) is \<Longrightarrow>
     render_views img_id is s = Some (s\<lparr>trace := trace s @ concat (map (view_events img_id) is)\<rparr>)"
proof (induction "is" arbitrary: s)
  case Nil
  then show ?case by simp
next
  case (Cons i "is")
  let ?s' = "s\<lparr>trace := trace s @ view_events img_id i\<rparr>"
  from Cons.prems have one: "render_view img_id i s = Some ?s'"
    by (simp add: render_view_def view_in_range_def view_events_def emit_def Let_def)
  from Cons.prems have "list_all (view_in_range img_id ?s') is"
    by simp
  then have "render_views img_id is ?s'
      = Some (?s'\<lparr>trace := trace ?s' @ concat (map (view_events img_id) is)\<rparr>)"
    by (rule Cons.IH)
  with one show ?case by simp
qed

lemma render_frame_events:
  "\<not> session_active s \<or> list_all (view_in_range img_id s) [0..<view_count] \<Longrightarrow>
     openxr_render_frame view_count img_id s
       = Some (s\<lparr>trace := trace s @ frame_events view_count img_id s\<rparr>)"
proof (cases "session_active s")
  case False
  then show ?thesis
    by (simp add: openxr_render_frame_def frame_events_def session_active_def emit_def Let_def)
next
  case True
  assume "\<not> session_active s \<or> list_all (view_in_range img_id s) [0..<view_count]"
  with True have "list_all (view_in_range img_id
      (s\<lparr>trace := trace s @ [WaitFrame, BeginFrame, LocateViews]\<rparr>)) [0..<view_count]"
    by simp
  from render_views_events [OF this] True show ?thesis
    by (simp add: openxr_render_frame_def openxr_render_layer_def frame_events_def
        session_active_def emit_def Let_def)
qed

lemma filter_view_events:
  "filter (on_swapchain i) (view_events img_id j) =
     (if i = j then [AcquireSwapchainImage i, WaitSwapchainImage i XR_INFINITE_DURATION,
                     ReleaseSwapchainImage i] else [])"
  by (simp add: view_events_def)

lemma filter_concat_view_events:
  "filter (on_swapchain i) (concat (map (view_events img_id) [0..<n])) =
     (if i < n then [AcquireSwapchainImage i, WaitSwapchainImage i XR_INFINITE_DURATION,
                     ReleaseSwapchainImage i] else [])"
  by (induction n) (auto simp: filter_view_events)

text \<open>
  C8. In a frame whose vector accesses are in range, \<open>openxr_render_frame\<close> returns,
  and for every view \<open>i\<close> the calls it made on swapchain \<open>i\<close> are exactly: acquire,
  wait with \<open>XR_INFINITE_DURATION\<close>, release, in this order and once each, if the
  session is active and \<open>i\<close> is one of the views located for the frame, and none
  otherwise. So acquires and releases are equal in number, per view and per frame. The
  source has no branch between the three calls: it does not look at their results.
\<close>

theorem frame_acquire_wait_release:
  assumes "\<not> session_active s \<or> list_all (view_in_range img_id s) [0..<view_count]"
  shows "\<exists>s'. openxr_render_frame view_count img_id s = Some s'
     \<and> (\<forall>i. filter (on_swapchain i) (new_events s s') =
           (if session_active s \<and> i < view_count
            then [AcquireSwapchainImage i, WaitSwapchainImage i XR_INFINITE_DURATION,
                  ReleaseSwapchainImage i]
            else []))
     \<and> (\<forall>i. count_list (new_events s s') (AcquireSwapchainImage i)
            = count_list (new_events s s') (ReleaseSwapchainImage i))"
proof -
  let ?s' = "s\<lparr>trace := trace s @ frame_events view_count img_id s\<rparr>"
  have run: "openxr_render_frame view_count img_id s = Some ?s'"
    using assms by (simp add: render_frame_events)
  have new: "new_events s ?s' = frame_events view_count img_id s"
    by (simp add: new_events_def)
  have proj: "filter (on_swapchain i) (frame_events view_count img_id s) =
           (if session_active s \<and> i < view_count
            then [AcquireSwapchainImage i, WaitSwapchainImage i XR_INFINITE_DURATION,
                  ReleaseSwapchainImage i]
            else [])" for i
    by (simp add: frame_events_def filter_concat_view_events)
  have cnt: "count_list es (AcquireSwapchainImage i) = count_list es (ReleaseSwapchainImage i)"
    if "filter (on_swapchain i) es = (if session_active s \<and> i < view_count
            then [AcquireSwapchainImage i, WaitSwapchainImage i XR_INFINITE_DURATION,
                  ReleaseSwapchainImage i]
            else [])" for es i
  proof -
    have "count_list es e = count_list (filter (on_swapchain i) es) e"
      if "on_swapchain i e" for e
      using that by (induction es) auto
    then show ?thesis
      using that by (auto split: if_splits)
  qed
  show ?thesis
    using run new proj cnt [OF proj] by simp
qed

text \<open>A stereo frame from the booted state: views 0 and 1, and no call for a view 2.\<close>

theorem frame_acquire_wait_release_witness:
  "list_all (view_in_range (\<lambda>i. 0) booted) [0..<2]
   \<and> (\<exists>s'. openxr_render_frame 2 (\<lambda>i. 0) booted = Some s'
     \<and> filter (on_swapchain 0) (new_events booted s')
         = [AcquireSwapchainImage 0, WaitSwapchainImage 0 XR_INFINITE_DURATION,
            ReleaseSwapchainImage 0]
     \<and> filter (on_swapchain 1) (new_events booted s')
         = [AcquireSwapchainImage 1, WaitSwapchainImage 1 XR_INFINITE_DURATION,
            ReleaseSwapchainImage 1]
     \<and> filter (on_swapchain 2) (new_events booted s') = []
     \<and> count_list (new_events booted s') (AcquireSwapchainImage 1)
         = count_list (new_events booted s') (ReleaseSwapchainImage 1))"
proof -
  have range: "list_all (view_in_range (\<lambda>i. 0) booted) [0..<2]"
    by (simp add: view_in_range_def two_swapchains_def upt_rec)
  have active: "session_active booted"
    by (simp add: session_active_def)
  from frame_acquire_wait_release [of booted "\<lambda>i. 0" 2] range
  obtain s' where run: "openxr_render_frame 2 (\<lambda>i. 0) booted = Some s'"
    and proj: "\<And>i. filter (on_swapchain i) (new_events booted s') =
           (if session_active booted \<and> i < 2
            then [AcquireSwapchainImage i, WaitSwapchainImage i XR_INFINITE_DURATION,
                  ReleaseSwapchainImage i]
            else [])"
    and cnt: "\<And>i. count_list (new_events booted s') (AcquireSwapchainImage i)
            = count_list (new_events booted s') (ReleaseSwapchainImage i)"
    by blast
  show ?thesis
    using range run proj [of 0] proj [of 1] proj [of 2] cnt [of 1] active by simp
qed

subsection \<open>The cadence of the main loop\<close>

lemma sent_payloads_views [simp]:
  "sent_payloads (concat (map (view_events img_id) is)) = []"
  by (induction "is") (simp_all add: view_events_def)

lemma sent_payloads_frame [simp]:
  "sent_payloads (frame_events view_count img_id s) = []"
  by (simp add: frame_events_def)

lemma main_loop_frame_render:
  assumes "xr_running s" and "frame_in_range inp s"
  shows "\<exists>s3. main_loop_frame inp s = Some (send_cadence (send_result inp) s3)
           \<and> cadence_view s3 = cadence_view s"
proof -
  let ?s1 = "s\<lparr>trace := trace s @ frame_events (located_views inp) (acquired_image inp) s\<rparr>"
  let ?s2 = "emit Present_window ?s1"
  let ?s3 = "if xr_session_state ?s2 \<noteq> XR_SESSION_STATE_VISIBLE
                \<and> xr_session_state ?s2 \<noteq> XR_SESSION_STATE_FOCUSED
             then sleep_for 250 ?s2 else ?s2"
  have "openxr_render_frame (located_views inp) (acquired_image inp) s = Some ?s1"
    using assms(2) by (simp add: render_frame_events frame_in_range_def)
  then have "main_loop_frame inp s = Some (send_cadence (send_result inp) ?s3)"
    using assms(1) by (simp add: main_loop_frame_def Let_def)
  moreover have "cadence_view ?s3 = cadence_view s"
    by (simp add: cadence_view_def channel_ops)
  ultimately show ?thesis
    by blast
qed

text \<open>
  An increment below the largest \<^verbatim>\<open>int\<close> is the increment of the number, and the
  test of the source after it is \<open>89 \<le> frame_counter\<close> before it.
\<close>

lemma sint_succ:
  "sint (x::32 word) < 2147483647 \<Longrightarrow> sint (x + 1) = sint x + 1"
proof -
  assume "sint x < 2147483647"
  moreover have "- 2147483648 \<le> sint x"
    using sint_ge [of x] by simp
  ultimately show ?thesis
    by (simp add: sint_word_ariths signed_take_bit_int_eq_self)
qed

lemma sle_90_succ:
  "sint (x::32 word) < 2147483647 \<Longrightarrow> word_sle 90 (x + 1) \<longleftrightarrow> 89 \<le> sint x"
  by (simp add: word_sle_eq sint_succ)

lemma send_cadence_view:
  assumes "sint (frame_counter s) < 2147483647"
    and "sint (message_number s) < 2147483647"
  shows "cadence_view (send_cadence rt s) =
     (xr_running s, xr_swapchains s, xr_opaque_connected s, ext_xrSendOpaqueDataChannelNV s,
      xr_opaque_channel s, sint (frame_counter s) + 1,
      sint (message_number s)
        + (if xr_opaque_connected s \<and> 89 \<le> sint (frame_counter s) then 1 else 0),
      sent_payloads (trace s)
        @ (if xr_opaque_connected s \<and> 89 \<le> sint (frame_counter s)
              \<and> ext_xrSendOpaqueDataChannelNV s \<and> xr_opaque_channel s \<noteq> XR_NULL_HANDLE
           then [cadence_payload (sint (message_number s))] else []))"
  using assms
  by (simp add: send_cadence_def cadence_view_def opaque_channel_send_data_def emit_def Let_def
      cadence_payload_def sle_90_succ sint_succ)

lemma main_loop_frame_view:
  assumes "xr_running s" and "frame_in_range inp s"
    and "sint (frame_counter s) < 2147483647"
    and "sint (message_number s) < 2147483647"
  shows "\<exists>s'. main_loop_frame inp s = Some s'
     \<and> cadence_view s' =
     (xr_running s, xr_swapchains s, xr_opaque_connected s, ext_xrSendOpaqueDataChannelNV s,
      xr_opaque_channel s, sint (frame_counter s) + 1,
      sint (message_number s)
        + (if xr_opaque_connected s \<and> 89 \<le> sint (frame_counter s) then 1 else 0),
      sent_payloads (trace s)
        @ (if xr_opaque_connected s \<and> 89 \<le> sint (frame_counter s)
              \<and> ext_xrSendOpaqueDataChannelNV s \<and> xr_opaque_channel s \<noteq> XR_NULL_HANDLE
           then [cadence_payload (sint (message_number s))] else []))"
proof -
  from main_loop_frame_render [OF assms(1,2)] obtain s3
    where run: "main_loop_frame inp s = Some (send_cadence (send_result inp) s3)"
      and same: "cadence_view s3 = cadence_view s"
    by blast
  from same have "sint (frame_counter s3) = sint (frame_counter s)"
    "sint (message_number s3) = sint (message_number s)"
    by (simp_all add: cadence_view_def)
  with assms(3,4) have "sint (frame_counter s3) < 2147483647" "sint (message_number s3) < 2147483647"
    by simp_all
  from send_cadence_view [OF this] same show ?thesis
    unfolding run by (auto simp: cadence_view_def)
qed

lemma frame_in_range_view:
  "cadence_view s' = cadence_view s \<Longrightarrow> frame_in_range inp s' = frame_in_range inp s"
  by (simp add: cadence_view_def frame_in_range_def view_in_range_def [abs_def])

text \<open>
  What the source does for any number of frames with the session running and
  \<open>connected\<close> true, as long as neither counter reaches the largest \<^verbatim>\<open>int\<close>:
  \<open>frame_counter\<close> is never reset, so from the frame in which it reaches 90 on, every
  frame sends a message.
\<close>

lemma main_loop_frames_view:
  assumes "xr_running s" and "xr_opaque_connected s"
    and "ext_xrSendOpaqueDataChannelNV s" and "xr_opaque_channel s \<noteq> XR_NULL_HANDLE"
    and "list_all (\<lambda>inp. frame_in_range inp s) inps"
    and "sint (frame_counter s) + int (length inps) \<le> 2147483647"
    and "sint (message_number s) + int (length inps) \<le> 2147483647"
  shows "\<exists>s'. main_loop_frames inps s = Some s'
     \<and> sent_payloads (trace s') = sent_payloads (trace s)
          @ map (\<lambda>k. cadence_payload (sint (message_number s) + int k))
              [0..<nat (min (int (length inps)) (sint (frame_counter s) + int (length inps) - 89))]"
  using assms
proof (induction inps arbitrary: s)
  case Nil
  then show ?case by simp
next
  case (Cons inp inps)
  let ?n = "length inps"
  let ?fc = "sint (frame_counter s)"
  let ?mn = "sint (message_number s)"
  let ?sends = "89 \<le> ?fc"
  from Cons.prems have "frame_in_range inp s" "?fc < 2147483647" "?mn < 2147483647"
    by simp_all
  with main_loop_frame_view [of s inp] Cons.prems obtain s1
    where run1: "main_loop_frame inp s = Some s1"
      and view1: "cadence_view s1 =
     (xr_running s, xr_swapchains s, xr_opaque_connected s, ext_xrSendOpaqueDataChannelNV s,
      xr_opaque_channel s, ?fc + 1, ?mn + (if ?sends then 1 else 0),
      sent_payloads (trace s) @ (if ?sends then [cadence_payload ?mn] else []))"
    by auto
  from view1 have f1: "xr_running s1 = xr_running s" "xr_swapchains s1 = xr_swapchains s"
    "xr_opaque_connected s1 = xr_opaque_connected s"
    "ext_xrSendOpaqueDataChannelNV s1 = ext_xrSendOpaqueDataChannelNV s"
    "xr_opaque_channel s1 = xr_opaque_channel s"
    "sint (frame_counter s1) = ?fc + 1"
    "sint (message_number s1) = ?mn + (if ?sends then 1 else 0)"
    "sent_payloads (trace s1)
       = sent_payloads (trace s) @ (if ?sends then [cadence_payload ?mn] else [])"
    by (simp_all add: cadence_view_def)
  have range1: "list_all (\<lambda>inp. frame_in_range inp s1) inps"
    using Cons.prems(5) f1(2)
    by (simp add: frame_in_range_def view_in_range_def [abs_def])
  have bounds1: "sint (frame_counter s1) + int ?n \<le> 2147483647"
    "sint (message_number s1) + int ?n \<le> 2147483647"
    using Cons.prems(6,7) f1(6,7) by simp_all
  from Cons.IH [of s1] Cons.prems f1 range1 bounds1 obtain s'
    where run: "main_loop_frames inps s1 = Some s'"
      and sent: "sent_payloads (trace s') = sent_payloads (trace s1)
          @ map (\<lambda>k. cadence_payload (sint (message_number s1) + int k))
              [0..<nat (min (int ?n) (sint (frame_counter s1) + int ?n - 89))]"
    by auto
  have "sent_payloads (trace s') = sent_payloads (trace s)
          @ map (\<lambda>k. cadence_payload (?mn + int k))
              [0..<nat (min (int (Suc ?n)) (?fc + int (Suc ?n) - 89))]"
  proof (cases ?sends)
    case True
    then have count: "nat (min (int ?n) (sint (frame_counter s1) + int ?n - 89)) = ?n"
      "nat (min (int (Suc ?n)) (?fc + int (Suc ?n) - 89)) = Suc ?n"
      using f1(6) by simp_all
    have "map (\<lambda>k. cadence_payload (?mn + int k)) [0..<Suc ?n]
        = cadence_payload ?mn # map (\<lambda>k. cadence_payload (?mn + 1 + int k)) [0..<?n]"
      by (simp only: map_upt_Suc) (simp add: add.assoc)
    with True sent f1(7,8) count show ?thesis
      by simp
  next
    case False
    then have "nat (min (int ?n) (sint (frame_counter s1) + int ?n - 89))
        = nat (min (int (Suc ?n)) (?fc + int (Suc ?n) - 89))"
      using f1(6) by simp
    with False sent f1(7,8) show ?thesis
      by simp
  qed
  with run1 run show ?case
    by simp
qed

lemma stereo_frame_in_range:
  "xr_swapchains s = two_swapchains \<Longrightarrow> frame_in_range stereo_frame s"
  by (simp add: frame_in_range_def stereo_frame_def view_in_range_def two_swapchains_def upt_rec)

lemma cadence_payload_0_1:
  "cadence_payload 0 = map of_char ''Message #0: OpenXR application data'' @ [0]"
  "cadence_payload 1 = map of_char ''Message #1: OpenXR application data'' @ [0]"
  by code_simp+

text \<open>
  From both counters at zero, \<open>F\<close> frames send \<open>F - 89\<close> messages, numbered from 0.
\<close>

lemma cadence_count:
  assumes "xr_running s" and "xr_opaque_connected s"
    and "ext_xrSendOpaqueDataChannelNV s" and "xr_opaque_channel s \<noteq> XR_NULL_HANDLE"
    and "list_all (\<lambda>inp. frame_in_range inp s) inps"
    and "frame_counter s = 0" and "message_number s = 0"
    and "length inps \<le> 2147483647"
  shows "\<exists>s'. main_loop_frames inps s = Some s'
     \<and> sent_payloads (trace s') = sent_payloads (trace s)
          @ map (\<lambda>k. cadence_payload (int k)) [0..<length inps - 89]"
proof -
  have "nat (min (int (length inps)) (sint (frame_counter s) + int (length inps) - 89))
      = length inps - 89"
    using assms(6) by simp
  with main_loop_frames_view [OF assms(1-5)] assms(6-8) show ?thesis
    by simp
qed

text \<open>
  At the largest \<^verbatim>\<open>int\<close> the counter wraps around to the smallest, and the frame
  sends nothing.
\<close>

lemma cadence_wraps:
  "xr_opaque_connected s \<Longrightarrow> frame_counter s = 2147483647 \<Longrightarrow>
     sint (frame_counter (send_cadence rt s)) = - 2147483648
     \<and> trace (send_cadence rt s) = trace s"
  by (simp add: send_cadence_def Let_def)

text \<open>
  C1. The claim is right about the design (one message every 90 frames) and the source
  misses it: after 91 rendered frames with \<open>connected\<close> true throughout, two messages
  have been sent, number 0 in frame 90 and number 1 in frame 91, where the claim has
  \<open>91 div 90 = 1\<close>.
\<close>

theorem cadence_after_91_frames:
  "\<exists>s'. main_loop_frames (replicate 91 stereo_frame) connected_state = Some s'
     \<and> sent_payloads (trace s')
         = sent_payloads (trace connected_state)
           @ [map of_char ''Message #0: OpenXR application data'' @ [0],
              map of_char ''Message #1: OpenXR application data'' @ [0]]"
proof -
  have "list_all (\<lambda>inp. frame_in_range inp connected_state) (replicate 91 stereo_frame)"
    by (simp add: list_all_iff stereo_frame_in_range)
  from main_loop_frames_view [OF _ _ _ _ this]
  obtain s' where "main_loop_frames (replicate 91 stereo_frame) connected_state = Some s'"
    and "sent_payloads (trace s') = sent_payloads (trace connected_state)
          @ map (\<lambda>k. cadence_payload (int k)) [0..<2]"
    by (auto simp: XR_NULL_HANDLE_def)
  then show ?thesis
    by (simp add: upt_rec cadence_payload_0_1)
qed

subsection \<open>The command line\<close>

lemma wcsstr_sublist: "wcsstr hay needle \<noteq> None \<longleftrightarrow> sublist needle hay"
  by (induction hay) (auto simp: sublist_Cons_right)

lemma split_at_nonempty: "split_at sep cs \<noteq> []"
  by (induction cs) (auto split: list.splits)

lemma split_at_head_prefix: "split_at sep cs = w # ws \<Longrightarrow> prefix w cs"
  by (induction cs arbitrary: w ws) (auto split: if_splits list.splits)

lemma split_at_sublist: "w \<in> set (split_at sep cs) \<Longrightarrow> sublist w cs"
proof (induction cs arbitrary: w)
  case Nil
  then show ?case by simp
next
  case (Cons c cs)
  show ?case
  proof (cases "c = sep")
    case True
    with Cons.prems have "w = [] \<or> w \<in> set (split_at sep cs)"
      by simp
    then show ?thesis
      using Cons.IH by (auto simp: sublist_Cons_right)
  next
    case False
    obtain w0 ws where split: "split_at sep cs = w0 # ws"
      using split_at_nonempty [of sep cs] by (cases "split_at sep cs") auto
    with False Cons.prems have "w = c # w0 \<or> w \<in> set ws"
      by simp
    then show ?thesis
    proof
      assume "w = c # w0"
      with split_at_head_prefix [OF split] have "prefix w (c # cs)"
        by simp
      then show ?thesis
        by (simp add: sublist_Cons_right)
    next
      assume "w \<in> set ws"
      with split have "w \<in> set (split_at sep cs)"
        by simp
      then show ?thesis
        using Cons.IH by (simp add: sublist_Cons_right)
    qed
  qed
qed

lemma spec_flag_contains: "spec_flag_present cmdLine \<Longrightarrow> contains_iOS cmdLine"
  by (auto simp: spec_flag_present_def contains_iOS_def spec_arguments_def
      split: option.splits intro: split_at_sublist)

lemma parse_command_line_eq:
  "parse_command_line cmdLine s =
     (if contains_iOS cmdLine
      then s\<lparr>app_is_ios_mode := True,
             app_config_form := XR_FORM_FACTOR_HANDHELD_DISPLAY,
             app_config_view := XR_VIEW_CONFIGURATION_TYPE_PRIMARY_MONO\<rparr>
      else s)"
  by (cases cmdLine) (simp_all add: parse_command_line_def contains_iOS_def flip: wcsstr_sublist)

text \<open>
  C9, as the specification states it, fails: the source searches the command line for the
  text \<^verbatim>\<open>-iOS\<close> and does not split it into arguments. On the command line
  \<^verbatim>\<open>-iOSx\<close> the flag is absent and an unknown flag is present, and the handheld mono
  configuration is selected.
\<close>

theorem command_line_counterexample:
  "\<not> spec_flag_present (Some (L ''-iOSx''))
   \<and> app_config_form (parse_command_line (Some (L ''-iOSx'')) startup)
       = XR_FORM_FACTOR_HANDHELD_DISPLAY
   \<and> app_config_view (parse_command_line (Some (L ''-iOSx'')) startup)
       = XR_VIEW_CONFIGURATION_TYPE_PRIMARY_MONO"
  by (simp add: spec_flag_present_def spec_arguments_def parse_command_line_def L_def)

text \<open>
  C9, amended. Starting from the initial configuration: if the text \<^verbatim>\<open>-iOS\<close> occurs
  anywhere in the command line, which is the case whenever the flag is one of its
  arguments, the application asks for the handheld form factor and the mono view
  configuration; otherwise, also for a null command line, it keeps head-mounted stereo and
  changes nothing. In both cases it creates one swapchain for each view the runtime
  enumerates for the selected configuration, and a rendered frame submits one projection
  layer with as many views as the runtime located for it.
\<close>

theorem command_line_selects:
  assumes "startup_config s"
  shows "(contains_iOS cmdLine \<longrightarrow>
            fst (openxr_init_views rt_view_count created (parse_command_line cmdLine s))
              = XR_FORM_FACTOR_HANDHELD_DISPLAY
            \<and> app_config_view (parse_command_line cmdLine s)
              = XR_VIEW_CONFIGURATION_TYPE_PRIMARY_MONO
            \<and> length (xr_swapchains
                 (snd (openxr_init_views rt_view_count created (parse_command_line cmdLine s))))
              = rt_view_count XR_VIEW_CONFIGURATION_TYPE_PRIMARY_MONO)
       \<and> (\<not> contains_iOS cmdLine \<longrightarrow>
            parse_command_line cmdLine s = s
            \<and> fst (openxr_init_views rt_view_count created (parse_command_line cmdLine s))
              = XR_FORM_FACTOR_HEAD_MOUNTED_DISPLAY
            \<and> app_config_view (parse_command_line cmdLine s)
              = XR_VIEW_CONFIGURATION_TYPE_PRIMARY_STEREO
            \<and> length (xr_swapchains
                 (snd (openxr_init_views rt_view_count created (parse_command_line cmdLine s))))
              = rt_view_count XR_VIEW_CONFIGURATION_TYPE_PRIMARY_STEREO)
       \<and> (spec_flag_present cmdLine \<longrightarrow> contains_iOS cmdLine)
       \<and> (\<forall>t n img_id. session_active t \<and> list_all (view_in_range img_id t) [0..<n] \<longrightarrow>
            (\<exists>t'. openxr_render_frame n img_id t = Some t' \<and> last (trace t') = EndFrame [n]))"
proof -
  have frame: "\<exists>t'. openxr_render_frame n img_id t = Some t' \<and> last (trace t') = EndFrame [n]"
    if "session_active t" "list_all (view_in_range img_id t) [0..<n]" for t n img_id
    using that by (simp add: render_frame_events frame_events_def)
  show ?thesis
    using assms spec_flag_contains [of cmdLine] frame
    by (simp add: parse_command_line_eq openxr_init_views_def startup_config_def Let_def)
qed

text \<open>
  With a runtime that enumerates one view for mono and two for stereo: the flag gives one
  swapchain, another flag or a null command line two.
\<close>

theorem command_line_selects_witness:
  "startup_config startup
   \<and> contains_iOS (Some (L ''app.exe -iOS''))
   \<and> spec_flag_present (Some (L ''app.exe -iOS''))
   \<and> fst (openxr_init_views conforming_view_count (\<lambda>i. hd two_swapchains)
           (parse_command_line (Some (L ''app.exe -iOS'')) startup))
       = XR_FORM_FACTOR_HANDHELD_DISPLAY
   \<and> length (xr_swapchains (snd (openxr_init_views conforming_view_count (\<lambda>i. hd two_swapchains)
           (parse_command_line (Some (L ''app.exe -iOS'')) startup)))) = 1
   \<and> \<not> contains_iOS (Some (L ''-verbose''))
   \<and> parse_command_line (Some (L ''-verbose'')) startup = startup
   \<and> \<not> contains_iOS None
   \<and> length (xr_swapchains (snd (openxr_init_views conforming_view_count (\<lambda>i. hd two_swapchains)
           (parse_command_line None startup)))) = 2
   \<and> session_active booted \<and> list_all (view_in_range (\<lambda>i. 0) booted) [0..<2]
   \<and> (\<exists>t'. openxr_render_frame 2 (\<lambda>i. 0) booted = Some t' \<and> last (trace t') = EndFrame [2])"
proof -
  have start: "startup_config startup"
    by (simp add: startup_config_def startup_def)
  have flag: "spec_flag_present (Some (L ''app.exe -iOS''))"
    by (simp add: spec_flag_present_def spec_arguments_def L_def)
  have yes: "contains_iOS (Some (L ''app.exe -iOS''))"
    using flag by (rule spec_flag_contains)
  have no: "\<not> contains_iOS (Some (L ''-verbose''))" "\<not> contains_iOS None"
    by (simp_all add: contains_iOS_def wcsstr_sublist [symmetric] L_def)
  have range: "session_active booted" "list_all (view_in_range (\<lambda>i. 0) booted) [0..<2]"
    by (simp_all add: session_active_def view_in_range_def two_swapchains_def upt_rec)
  note ios = command_line_selects [OF start, of "Some (L ''app.exe -iOS'')"
      conforming_view_count "\<lambda>i. hd two_swapchains"]
  note other = command_line_selects [OF start, of "Some (L ''-verbose'')"
      conforming_view_count "\<lambda>i. hd two_swapchains"]
  note none = command_line_selects [OF start, of None
      conforming_view_count "\<lambda>i. hd two_swapchains"]
  have frame: "\<exists>t'. openxr_render_frame 2 (\<lambda>i. 0) booted = Some t'
      \<and> last (trace t') = EndFrame [2]"
    using ios [THEN conjunct2, THEN conjunct2, THEN conjunct2, rule_format, of booted "\<lambda>i. 0" 2]
      range by simp
  have "fst (openxr_init_views conforming_view_count (\<lambda>i. hd two_swapchains)
           (parse_command_line (Some (L ''app.exe -iOS'')) startup))
       = XR_FORM_FACTOR_HANDHELD_DISPLAY"
    and "length (xr_swapchains (snd (openxr_init_views conforming_view_count
           (\<lambda>i. hd two_swapchains)
           (parse_command_line (Some (L ''app.exe -iOS'')) startup)))) = 1"
    using ios [THEN conjunct1] yes by (auto simp: conforming_view_count_def)
  moreover have "parse_command_line (Some (L ''-verbose'')) startup = startup"
    using other [THEN conjunct2, THEN conjunct1] no by auto
  moreover have "length (xr_swapchains (snd (openxr_init_views conforming_view_count
           (\<lambda>i. hd two_swapchains) (parse_command_line None startup)))) = 2"
    using none [THEN conjunct2, THEN conjunct1] no by (auto simp: conforming_view_count_def)
  ultimately show ?thesis
    using start flag yes no range frame by simp
qed

subsection \<open>The flags over all runs\<close>

lemma flag_step_refl [simp]: "flag_step s s"
  by (simp add: flag_step_def)

lemma flag_step_trans: "flag_step s s' \<Longrightarrow> flag_step s' s'' \<Longrightarrow> flag_step s s''"
  by (auto simp: flag_step_def)

lemma flag_step_send: "flag_step s (snd (opaque_channel_send_data rt data sz s))"
  by (simp add: flag_step_def opaque_channel_send_data_def emit_def Let_def)

lemma flag_step_connect_body:
  "connect_body poll rt s = Continue s' \<or> connect_body poll rt s = Break s'
     \<or> connect_body poll rt s = Return s' \<Longrightarrow> flag_step s s'"
  by (auto simp: connect_body_def flag_step_def opaque_channel_send_data_def channel_ops Let_def
      split: if_splits XrOpaqueDataChannelStatusNV.splits)

lemma flag_step_store_connecting: "flag_step s (store_connecting b s)"
  by (simp add: flag_step_def channel_ops)

lemma flag_step_connect_while:
  "connect_while polls rt s = Returned s' \<or> connect_while polls rt s = Polling s'
     \<Longrightarrow> flag_step s s'"
proof (induction polls arbitrary: s)
  case Nil
  then show ?case
    by (auto simp: flag_step_store_connecting split: if_splits)
next
  case (Cons poll polls)
  show ?case
  proof (cases "xr_opaque_connecting s \<and> \<not> xr_opaque_connected s")
    case False
    with Cons.prems show ?thesis
      by (auto simp: flag_step_store_connecting)
  next
    case True
    show ?thesis
    proof (cases "connect_body poll rt s")
      case (Continue s1)
      with True Cons.prems have "connect_while polls rt s1 = Returned s'
          \<or> connect_while polls rt s1 = Polling s'"
        by simp
      then have "flag_step s1 s'"
        by (rule Cons.IH)
      moreover have "flag_step s s1"
        by (rule flag_step_connect_body [of poll rt s s1]) (simp add: Continue)
      ultimately show ?thesis
        by (rule flag_step_trans [rotated])
    next
      case (Break s1)
      with True Cons.prems have "s' = store_connecting False s1"
        by simp
      moreover have "flag_step s s1"
        by (rule flag_step_connect_body [of poll rt s s1]) (simp add: Break)
      ultimately show ?thesis
        using flag_step_store_connecting [of s1 False] by (auto intro: flag_step_trans)
    next
      case (Return s1)
      with True Cons.prems have "s' = s1"
        by simp
      then show ?thesis
        by (simp add: flag_step_connect_body [of poll rt s s1] Return)
    next
      case Fault
      with True Cons.prems show ?thesis
        by simp
    qed
  qed
qed

lemma receive_body_flags:
  "receive_body a s = Continue s' \<or> receive_body a s = Break s' \<or> receive_body a s = Return s'
   \<Longrightarrow> xr_opaque_running s' = xr_opaque_running s
       \<and> xr_opaque_connected s' = xr_opaque_connected s
       \<and> xr_opaque_connecting s' = xr_opaque_connecting s
       \<and> xr_opaque_channel s' = xr_opaque_channel s
       \<and> ext_xrSendOpaqueDataChannelNV s' = ext_xrSendOpaqueDataChannelNV s"
  by (auto simp: receive_body_def channel_ops Let_def split: if_splits)

lemma flag_step_receive_loop:
  "opaque_channel_receive_loop answers s = Returned s'
     \<or> opaque_channel_receive_loop answers s = Polling s' \<Longrightarrow> flag_step s s'"
proof (induction answers arbitrary: s)
  case Nil
  then show ?case
    by (auto split: if_splits)
next
  case (Cons a answers)
  show ?case
  proof (cases "xr_opaque_running s")
    case False
    with Cons.prems show ?thesis by auto
  next
    case True
    show ?thesis
    proof (cases "receive_body a s")
      case (Continue s1)
      with True Cons.prems have "opaque_channel_receive_loop answers s1 = Returned s'
          \<or> opaque_channel_receive_loop answers s1 = Polling s'"
        by simp
      then have "flag_step s1 s'"
        by (rule Cons.IH)
      moreover from Continue have "flag_step s s1"
        using receive_body_flags [of a s s1] by (simp add: flag_step_def)
      ultimately show ?thesis
        by (rule flag_step_trans [rotated])
    next
      case (Break s1)
      with True Cons.prems have "s' = s1"
        by simp
      with Break show ?thesis
        using receive_body_flags [of a s s1] by (simp add: flag_step_def)
    next
      case (Return s1)
      with True Cons.prems have "s' = s1"
        by simp
      with Return show ?thesis
        using receive_body_flags [of a s s1] by (simp add: flag_step_def)
    next
      case Fault
      with True Cons.prems show ?thesis
        by simp
    qed
  qed
qed

lemma flag_step_shutdown: "flag_step s (opaque_channel_shutdown s)"
  by (simp add: flag_step_def shutdown_fields)

lemma flag_step_cleanup: "flag_step s (cleanup s)"
  by (simp add: flag_step_def cleanup_def shutdown_fields channel_ops Let_def)

lemma flag_step_start: "flag_step s (start_connection_thread s)"
  by (simp add: flag_step_def start_connection_thread_def emit_def)

lemma render_views_flags:
  "render_views img_id is s = Some s' \<Longrightarrow>
     xr_opaque_running s' = xr_opaque_running s \<and> xr_opaque_connected s' = xr_opaque_connected s"
proof (induction "is" arbitrary: s)
  case Nil
  then show ?case by simp
next
  case (Cons i "is")
  then obtain s1 where one: "render_view img_id i s = Some s1"
    and rest: "render_views img_id is s1 = Some s'"
    by (auto split: option.splits)
  from one have "xr_opaque_running s1 = xr_opaque_running s
      \<and> xr_opaque_connected s1 = xr_opaque_connected s"
    by (auto simp: render_view_def emit_def Let_def split: if_splits)
  with Cons.IH [OF rest] show ?case
    by simp
qed

lemma render_frame_flags:
  "openxr_render_frame view_count img_id s = Some s' \<Longrightarrow>
     xr_opaque_running s' = xr_opaque_running s \<and> xr_opaque_connected s' = xr_opaque_connected s"
  by (auto simp: openxr_render_frame_def openxr_render_layer_def emit_def Let_def
      split: if_splits option.splits dest!: render_views_flags)

lemma flag_step_send_cadence: "flag_step s (send_cadence rt s)"
  by (simp add: flag_step_def send_cadence_def opaque_channel_send_data_def emit_def Let_def)

lemma flag_step_frame: "main_loop_frame inp s = Some s' \<Longrightarrow> flag_step s s'"
proof (cases "xr_running s")
  case False
  assume "main_loop_frame inp s = Some s'"
  with False show ?thesis
    by (simp add: main_loop_frame_def)
next
  case True
  assume run: "main_loop_frame inp s = Some s'"
  with True obtain s1 where render:
      "openxr_render_frame (located_views inp) (acquired_image inp) s = Some s1"
    by (auto simp: main_loop_frame_def split: option.splits)
  let ?s2 = "emit Present_window s1"
  let ?s3 = "if xr_session_state ?s2 \<noteq> XR_SESSION_STATE_VISIBLE
                \<and> xr_session_state ?s2 \<noteq> XR_SESSION_STATE_FOCUSED
             then sleep_for 250 ?s2 else ?s2"
  from run True render have s': "s' = send_cadence (send_result inp) ?s3"
    by (simp add: main_loop_frame_def Let_def)
  have "flag_step s ?s3"
    using render_frame_flags [OF render] by (simp add: flag_step_def channel_ops)
  then show ?thesis
    unfolding s' using flag_step_send_cadence by (rule flag_step_trans)
qed

lemma flag_step_step: "step s s' \<Longrightarrow> flag_step s s'"
  by (induction rule: step.induct)
     (auto intro: flag_step_start flag_step_store_connecting flag_step_connect_while
        flag_step_receive_loop flag_step_send flag_step_frame flag_step_shutdown flag_step_cleanup)

lemma reachable_running_connected:
  "reachable s \<Longrightarrow> xr_opaque_running s \<longrightarrow> xr_opaque_connected s"
proof (induction rule: reachable.induct)
  case (reach_initial s)
  then show ?case by (simp add: initial_def)
next
  case (reach_step s s')
  then show ?case
    using flag_step_step [of s s'] by (auto simp: flag_step_def)
qed

lemma receive_body_disconnected:
  "ext_xrReceiveOpaqueDataChannelNV s \<Longrightarrow> ext_xrGetOpaqueDataChannelStateNV s \<Longrightarrow>
   state_after_poll a = XR_OPAQUE_DATA_CHANNEL_STATUS_DISCONNECTED_NV \<Longrightarrow>
     receive_body a s
       = Break (s\<lparr>trace := trace s @ [Call_Receive (xr_opaque_channel s) 4096,
                                          Call_GetState (xr_opaque_channel s)]\<rparr>)"
  by (simp add: receive_body_def emit_def Let_def)

lemma disconnected_state_eq:
  "disconnected_state
     = connected_state\<lparr>trace := trace connected_state @ [Call_Receive 1 4096, Call_GetState 1]\<rparr>"
  by (simp add: disconnected_state_def receive_body_disconnected disconnect_answer_def)

lemma disconnected_state_fields [simp]:
  "ext_xrSendOpaqueDataChannelNV disconnected_state"
  "xr_opaque_channel disconnected_state = 1"
  "xr_opaque_running disconnected_state"
  "xr_opaque_connected disconnected_state"
  "message_number disconnected_state = 0"
  by (simp_all add: disconnected_state_eq)

lemma reachable_connected_state: "reachable connected_state"
proof -
  have "initial booted"
    by (simp add: initial_def)
  then have "reachable booted"
    by (rule reach_initial)
  then have "reachable (start_connection_thread booted)"
    using step.start_thread by (rule reach_step)
  then have "reachable (store_connecting True (start_connection_thread booted))"
    using step.connect_enter by (rule reach_step)
  moreover have "connect_while [(XR_SUCCESS, XR_OPAQUE_DATA_CHANNEL_STATUS_CONNECTED_NV)]
      XR_SUCCESS (store_connecting True (start_connection_thread booted))
      = Returned connected_state"
    by (simp add: connected_state_def opaque_channel_connect_async_def connect_body_def
        start_connection_thread_def channel_ops Let_def XR_NULL_HANDLE_def)
  then have "step (store_connecting True (start_connection_thread booted)) connected_state"
    by (rule step.connect_return)
  ultimately show ?thesis
    by (rule reach_step)
qed

lemma reachable_disconnected_state: "reachable disconnected_state"
proof -
  have "opaque_channel_receive_loop [disconnect_answer] connected_state
      = Returned disconnected_state"
    by (simp add: disconnected_state_def receive_body_disconnected disconnect_answer_def)
  then have "step connected_state disconnected_state"
    by (rule step.receive_return)
  with reachable_connected_state show ?thesis
    by (rule reach_step)
qed

text \<open>
  C3, as the specification states it, fails. After the connect task has found the channel
  connected and the receive loop has then seen it disconnected and left, \<open>running\<close>
  still reads true and a send the runtime accepts returns true; and after the channel
  shutdown that follows, \<open>connected\<close> is true and \<open>running\<close> is false. Both states
  are reachable.
\<close>

theorem flags_counterexample:
  "reachable disconnected_state
   \<and> xr_opaque_running disconnected_state
   \<and> fst (opaque_channel_send_data XR_SUCCESS testData 5 disconnected_state)
   \<and> reachable (opaque_channel_shutdown disconnected_state)
   \<and> xr_opaque_connected (opaque_channel_shutdown disconnected_state)
   \<and> \<not> xr_opaque_running (opaque_channel_shutdown disconnected_state)"
proof -
  have "reachable (opaque_channel_shutdown disconnected_state)"
    using reachable_disconnected_state step.shutdown by (rule reach_step)
  then show ?thesis
    using reachable_disconnected_state
    by (simp add: shutdown_fields opaque_channel_send_data_def XR_NULL_HANDLE_def Let_def)
qed

text \<open>
  C3, amended. In every reachable state \<open>running\<close> implies \<open>connected\<close>. The two
  flags are set together, by the connect task when it finds the channel connected; they
  are not cleared together: \<open>opaque_channel_shutdown\<close> clears \<open>running\<close> and leaves
  \<open>connected\<close> as it was. When the receive loop finds the channel disconnected it
  returns and leaves both flags as they were, so \<open>running\<close> still reads true; a send
  after that still calls the runtime, if the entry point is resolved and the handle is not
  null, and returns true if and only if the runtime answers \<open>XR_SUCCESS\<close>.
\<close>

theorem running_implies_connected:
  "(reachable s \<longrightarrow> xr_opaque_running s \<longrightarrow> xr_opaque_connected s)
   \<and> (ext_xrGetOpaqueDataChannelStateNV u \<longrightarrow>
       (\<exists>u'. connect_body (XR_SUCCESS, XR_OPAQUE_DATA_CHANNEL_STATUS_CONNECTED_NV) rt u = Return u'
          \<and> xr_opaque_connected u' \<and> xr_opaque_running u'))
   \<and> xr_opaque_connected (opaque_channel_shutdown u) = xr_opaque_connected u
   \<and> \<not> xr_opaque_running (opaque_channel_shutdown u)
   \<and> (xr_opaque_running t \<and> ext_xrReceiveOpaqueDataChannelNV t
        \<and> ext_xrGetOpaqueDataChannelStateNV t
        \<and> state_after_poll a = XR_OPAQUE_DATA_CHANNEL_STATUS_DISCONNECTED_NV \<longrightarrow>
       (\<exists>t'. opaque_channel_receive_loop (a # rest) t = Returned t'
          \<and> xr_opaque_running t'
          \<and> xr_opaque_connected t' = xr_opaque_connected t
          \<and> (ext_xrSendOpaqueDataChannelNV t \<and> xr_opaque_channel t \<noteq> XR_NULL_HANDLE \<longrightarrow>
                fst (opaque_channel_send_data rt data sz t') = (rt = XR_SUCCESS)
                \<and> sent_payloads (new_events t' (snd (opaque_channel_send_data rt data sz t')))
                    = [data])))"
  by (simp add: reachable_running_connected receive_body_disconnected connect_body_connected
      shutdown_fields opaque_channel_send_data_def new_events_def emit_def Let_def)

text \<open>
  From the state in which the channel is connected: the invariant there and after
  shutdown, the receive loop leaving on DISCONNECTED, one send accepted and one refused by
  the runtime afterwards; and the connect task setting both flags from the booted state.
\<close>

theorem running_implies_connected_witness:
  "reachable (opaque_channel_shutdown connected_state)
   \<and> \<not> xr_opaque_running (opaque_channel_shutdown connected_state)
   \<and> reachable connected_state
   \<and> xr_opaque_running connected_state \<and> xr_opaque_connected connected_state
   \<and> ext_xrReceiveOpaqueDataChannelNV connected_state
   \<and> ext_xrGetOpaqueDataChannelStateNV connected_state
   \<and> state_after_poll disconnect_answer = XR_OPAQUE_DATA_CHANNEL_STATUS_DISCONNECTED_NV
   \<and> (\<exists>t'. opaque_channel_receive_loop [disconnect_answer] connected_state = Returned t'
          \<and> xr_opaque_running t' \<and> xr_opaque_connected t'
          \<and> fst (opaque_channel_send_data XR_SUCCESS testData 5 t')
          \<and> \<not> fst (opaque_channel_send_data (- 1) testData 5 t'))
   \<and> ext_xrGetOpaqueDataChannelStateNV booted
   \<and> (\<exists>u'. connect_body (XR_SUCCESS, XR_OPAQUE_DATA_CHANNEL_STATUS_CONNECTED_NV)
                 XR_SUCCESS booted = Return u'
          \<and> xr_opaque_connected u' \<and> xr_opaque_running u')"
proof -
  have down: "reachable (opaque_channel_shutdown connected_state)"
    using reachable_connected_state step.shutdown by (rule reach_step)
  have answer: "state_after_poll disconnect_answer = XR_OPAQUE_DATA_CHANNEL_STATUS_DISCONNECTED_NV"
    by (simp add: disconnect_answer_def)
  note inv = running_implies_connected [of connected_state booted XR_SUCCESS connected_state
      disconnect_answer "[]" testData 5, THEN conjunct1, rule_format]
  note ok = running_implies_connected [of connected_state booted XR_SUCCESS connected_state
      disconnect_answer "[]" testData 5, THEN conjunct2, THEN conjunct2, THEN conjunct2,
      THEN conjunct2, rule_format]
  note refused = running_implies_connected [of connected_state booted "- 1" connected_state
      disconnect_answer "[]" testData 5, THEN conjunct2, THEN conjunct2, THEN conjunct2,
      THEN conjunct2, rule_format]
  note both = running_implies_connected [of connected_state booted XR_SUCCESS connected_state
      disconnect_answer "[]" testData 5, THEN conjunct2, THEN conjunct1, rule_format]
  have "xr_opaque_connected connected_state"
    using inv reachable_connected_state by simp
  moreover have "\<exists>u'. connect_body (XR_SUCCESS, XR_OPAQUE_DATA_CHANNEL_STATUS_CONNECTED_NV)
                 XR_SUCCESS booted = Return u'
          \<and> xr_opaque_connected u' \<and> xr_opaque_running u'"
    using both by simp
  moreover from ok refused answer
  have "\<exists>t'. opaque_channel_receive_loop [disconnect_answer] connected_state = Returned t'
          \<and> xr_opaque_running t' \<and> xr_opaque_connected t'
          \<and> fst (opaque_channel_send_data XR_SUCCESS testData 5 t')
          \<and> \<not> fst (opaque_channel_send_data (- 1) testData 5 t')"
    by (auto simp: XR_NULL_HANDLE_def XR_SUCCESS_def)
  ultimately show ?thesis
    using down reachable_connected_state answer by (simp add: shutdown_fields)
qed

lemma cleanup_fields:
  "xr_opaque_connected (cleanup s) = xr_opaque_connected s"
  "xr_opaque_channel (cleanup s) =
     (if ext_xrDestroyOpaqueDataChannelNV s then XR_NULL_HANDLE else xr_opaque_channel s)"
  "ext_xrSendOpaqueDataChannelNV (cleanup s) = ext_xrSendOpaqueDataChannelNV s"
  "frame_counter (cleanup s) = frame_counter s"
  by (simp_all add: cleanup_def opaque_channel_shutdown_def channel_ops Let_def)

lemma cleanup_sends_nothing: "sent_payloads (new_events s (cleanup s)) = []"
  by (simp add: cleanup_def new_events_def shutdown_events channel_ops Let_def)

lemma shutdown_sends_nothing: "sent_payloads (new_events s (opaque_channel_shutdown s)) = []"
  by (simp add: new_events_def shutdown_events)

lemma send_cadence_null_handle:
  "xr_opaque_channel s = XR_NULL_HANDLE \<Longrightarrow> trace (send_cadence rt s) = trace s"
  by (simp add: send_cadence_def opaque_channel_send_data_def Let_def)

lemma send_cadence_sends:
  "xr_opaque_connected s \<Longrightarrow> 89 \<le> sint (frame_counter s) \<Longrightarrow>
   sint (frame_counter s) < 2147483647 \<Longrightarrow>
   ext_xrSendOpaqueDataChannelNV s \<Longrightarrow> xr_opaque_channel s \<noteq> XR_NULL_HANDLE \<Longrightarrow>
     sent_payloads (trace (send_cadence rt s))
       = sent_payloads (trace s) @ [cadence_payload (sint (message_number s))]"
  by (simp add: send_cadence_def opaque_channel_send_data_def emit_def Let_def
      cadence_payload_def sle_90_succ)

lemma late_state_fields [simp]:
  "xr_opaque_connected late_state"
  "frame_counter late_state = 89"
  "message_number late_state = 0"
  "ext_xrSendOpaqueDataChannelNV late_state"
  "ext_xrDestroyOpaqueDataChannelNV late_state"
  "xr_opaque_channel late_state = 1"
  by (simp_all add: late_state_def disconnected_state_eq)

text \<open>
  C10, as the specification states it, fails in its last clause: the cadence send is not
  made during shutdown. The send is in the main loop, and the main loop has ended before
  the cleanup runs; the cleanup, with the channel shutdown in it, sends nothing; and after
  it, with \<open>connected\<close> still true and the counter past its threshold, the handle is
  null, so a cadence step calls the runtime for nothing and a send returns false.
\<close>

theorem cadence_during_shutdown_counterexample:
  "xr_opaque_connected late_state
   \<and> word_sle 90 (frame_counter late_state + 1)
   \<and> main_loop_and_cleanup [] late_state = Some (cleanup late_state)
   \<and> sent_payloads (new_events late_state (cleanup late_state)) = []
   \<and> xr_opaque_connected (cleanup late_state)
   \<and> word_sle 90 (frame_counter (cleanup late_state) + 1)
   \<and> xr_opaque_channel (cleanup late_state) = XR_NULL_HANDLE
   \<and> trace (send_cadence XR_SUCCESS (cleanup late_state)) = trace (cleanup late_state)
   \<and> \<not> fst (opaque_channel_send_data XR_SUCCESS (cadence_payload 0) 36 (cleanup late_state))"
  by (simp add: main_loop_and_cleanup_def cleanup_sends_nothing cleanup_fields
      send_cadence_null_handle opaque_channel_send_data_def)

text \<open>
  C10, amended. No move of any task takes \<open>connected\<close> from true to false. In
  particular the receive loop's exit on DISCONNECTED changes none of the three flags, and
  \<open>opaque_channel_shutdown\<close> and the cleanup of \<^verbatim>\<open>wWinMain\<close> leave \<open>connected\<close>
  as it was. So the cadence send is still made after a disconnect: whenever
  \<open>connected\<close> is true and the frame counter is at 89 or more, and below the largest
  \<^verbatim>\<open>int\<close>, whatever \<open>running\<close> and \<open>connecting\<close> read, the next frame of the main
  loop sends the cadence message to the runtime, as long as the send entry point is
  resolved and the handle is not null. It is not made during shutdown: in a run of the
  main loop followed by the cleanup every send comes before the cleanup, the channel
  shutdown sends nothing, and once the handle has been destroyed and nulled a cadence step
  sends nothing and a send returns false.
\<close>

theorem connected_never_cleared:
  "(step s s' \<longrightarrow> xr_opaque_connected s \<longrightarrow> xr_opaque_connected s')
   \<and> (receive_body a t = Break t' \<longrightarrow>
        xr_opaque_connected t' = xr_opaque_connected t
        \<and> xr_opaque_running t' = xr_opaque_running t
        \<and> xr_opaque_connecting t' = xr_opaque_connecting t)
   \<and> xr_opaque_connected (opaque_channel_shutdown u) = xr_opaque_connected u
   \<and> xr_opaque_connected (cleanup u) = xr_opaque_connected u
   \<and> (xr_opaque_connected u \<and> 89 \<le> sint (frame_counter u)
        \<and> sint (frame_counter u) < 2147483647
        \<and> ext_xrSendOpaqueDataChannelNV u \<and> xr_opaque_channel u \<noteq> XR_NULL_HANDLE \<longrightarrow>
        sent_payloads (trace (send_cadence rt u))
          = sent_payloads (trace u) @ [cadence_payload (sint (message_number u))])
   \<and> (main_loop_and_cleanup inps u = Some u' \<longrightarrow>
        (\<exists>u1. main_loop_frames inps u = Some u1 \<and> u' = cleanup u1
           \<and> sent_payloads (new_events u1 u') = []))
   \<and> sent_payloads (new_events u (opaque_channel_shutdown u)) = []
   \<and> (ext_xrDestroyOpaqueDataChannelNV u \<longrightarrow>
        xr_opaque_channel (opaque_channel_shutdown u) = XR_NULL_HANDLE
        \<and> xr_opaque_channel (cleanup u) = XR_NULL_HANDLE)
   \<and> (xr_opaque_channel u = XR_NULL_HANDLE \<longrightarrow>
        trace (send_cadence rt u) = trace u
        \<and> \<not> fst (opaque_channel_send_data rt data sz u))"
proof -
  have "xr_opaque_connected s'" if "step s s'" "xr_opaque_connected s"
    using flag_step_step [OF that(1)] that(2) by (simp add: flag_step_def)
  moreover have "xr_opaque_connected t' = xr_opaque_connected t
        \<and> xr_opaque_running t' = xr_opaque_running t
        \<and> xr_opaque_connecting t' = xr_opaque_connecting t"
    if "receive_body a t = Break t'"
    using receive_body_flags [of a t t'] that by simp
  moreover have "\<exists>u1. main_loop_frames inps u = Some u1 \<and> u' = cleanup u1
           \<and> sent_payloads (new_events u1 u') = []"
    if "main_loop_and_cleanup inps u = Some u'"
    using that by (auto simp: main_loop_and_cleanup_def cleanup_sends_nothing split: option.splits)
  ultimately show ?thesis
    by (simp add: shutdown_fields shutdown_channel cleanup_fields send_cadence_sends
        shutdown_sends_nothing send_cadence_null_handle opaque_channel_send_data_def)
qed

text \<open>
  The shutdown move from the connected state, the receive loop's exit, the cadence send
  in the ninetieth frame after the disconnect, and the cleanup after it.
\<close>

theorem connected_never_cleared_witness:
  "step connected_state (opaque_channel_shutdown connected_state)
   \<and> xr_opaque_connected connected_state
   \<and> xr_opaque_connected (opaque_channel_shutdown connected_state)
   \<and> \<not> xr_opaque_running (opaque_channel_shutdown connected_state)
   \<and> receive_body disconnect_answer connected_state = Break disconnected_state
   \<and> xr_opaque_connected disconnected_state
   \<and> xr_opaque_connected late_state \<and> 89 \<le> sint (frame_counter late_state)
   \<and> sint (frame_counter late_state) < 2147483647
   \<and> ext_xrSendOpaqueDataChannelNV late_state \<and> xr_opaque_channel late_state \<noteq> XR_NULL_HANDLE
   \<and> sent_payloads (trace (send_cadence XR_SUCCESS late_state))
       = sent_payloads (trace late_state) @ [cadence_payload 0]
   \<and> main_loop_and_cleanup [] late_state = Some (cleanup late_state)
   \<and> sent_payloads (new_events late_state (cleanup late_state)) = []
   \<and> ext_xrDestroyOpaqueDataChannelNV late_state
   \<and> xr_opaque_channel (cleanup late_state) = XR_NULL_HANDLE
   \<and> trace (send_cadence XR_SUCCESS (cleanup late_state)) = trace (cleanup late_state)"
proof -
  have move: "step connected_state (opaque_channel_shutdown connected_state)"
    by (rule step.shutdown)
  have left: "receive_body disconnect_answer connected_state = Break disconnected_state"
    by (simp add: receive_body_disconnected disconnect_answer_def disconnected_state_eq)
  have run: "main_loop_and_cleanup [] late_state = Some (cleanup late_state)"
    by (simp add: main_loop_and_cleanup_def)
  note inst = connected_never_cleared [of connected_state
      "opaque_channel_shutdown connected_state" disconnect_answer connected_state
      disconnected_state late_state XR_SUCCESS "[]" "cleanup late_state"]
  note down = connected_never_cleared [of connected_state
      "opaque_channel_shutdown connected_state" disconnect_answer connected_state
      disconnected_state "cleanup late_state" XR_SUCCESS]
  from inst move have "xr_opaque_connected (opaque_channel_shutdown connected_state)"
    by simp
  moreover from inst left have "xr_opaque_connected disconnected_state"
    by simp
  moreover from inst have "sent_payloads (trace (send_cadence XR_SUCCESS late_state))
       = sent_payloads (trace late_state) @ [cadence_payload 0]"
    by (simp add: XR_NULL_HANDLE_def)
  moreover from inst run have "sent_payloads (new_events late_state (cleanup late_state)) = []"
    by auto
  moreover from inst have null: "xr_opaque_channel (cleanup late_state) = XR_NULL_HANDLE"
    by simp
  moreover from down null
  have "trace (send_cadence XR_SUCCESS (cleanup late_state)) = trace (cleanup late_state)"
    by simp
  ultimately show ?thesis
    using move left run by (simp add: shutdown_fields XR_NULL_HANDLE_def)
qed

end
